theory Spec2Isabelle
  imports Complex_Main "HOL-Library.Sublist" "HOL-Library.Word"
begin

chapter \<open>The Draw.io viewer widget (src/src/widget.ts)\<close>

text \<open>
  A shallow embedding of the class \<open>DrawioWidget\<close>: the style parser, the shape and edge
  generators, the two-pass layout of \<open>_mxGraphToSvg\<close>, the decompression glue and the
  page pipeline with its navigation handlers. The private methods keep their names
  without the leading underscore (\<open>_parseStyle\<close> is \<open>parseStyle\<close>).

  Conventions of the embedding:
  \<^item> a JavaScript string is a \<open>string\<close>, one \<open>char\<close> per code unit; code units above
    255 are outside the model;
  \<^item> a JavaScript number that the layout computes with is a \<open>real\<close>: arithmetic is exact,
    and \<open>NaN\<close> and the infinities are not values of the model (the initial
    infinities of the running bounding box are modelled by \<open>None\<close>); the page
    counters are of type \<open>int\<close>;
  \<^item> the functions of the host (the browser) that the widget calls are fields of a
    record \<open>platform\<close>, a parameter of every method that uses one;
  \<^item> a thrown \<open>Error\<close> is the \<open>Inl\<close> of a sum, the fields of the widget are a record
    that every method takes and returns.
\<close>

section \<open>Strings\<close>

text \<open>
  The white space that \<open>String.prototype.trim\<close> removes and that \<open>\s\<close> matches in a
  regular expression: tab, line feed, vertical tab, form feed, carriage return, space
  and the no-break space.
\<close>

definition is_space :: "char \<Rightarrow> bool" where
  "is_space c = (c \<in> {CHR 0x09, CHR 0x0A, CHR 0x0B, CHR 0x0C, CHR 0x0D, CHR '' '', CHR 0xA0})"

definition trim :: "string \<Rightarrow> string" where
  "trim s = rev (dropWhile is_space (rev (dropWhile is_space s)))"

text \<open>
  \<open>s.split(sep)\<close> for a separator of one character: the fields between the
  occurrences of \<open>sep\<close>, in order. The result is never empty; \<open>"".split(sep)\<close> is \<open>[""]\<close>.
\<close>

fun split_on :: "char \<Rightarrow> string \<Rightarrow> string list" where
  "split_on sep [] = [[]]"
| "split_on sep (c # cs) =
     (if c = sep then [] # split_on sep cs
      else (case split_on sep cs of
              [] \<Rightarrow> [[c]]
            | f # fs \<Rightarrow> (c # f) # fs))"

text \<open>\<open>s.includes(sub)\<close>: \<open>sub\<close> occurs in \<open>s\<close> as a contiguous run.\<close>

fun str_includes :: "string \<Rightarrow> string \<Rightarrow> bool" where
  "str_includes [] sub = (sub = [])"
| "str_includes (c # cs) sub = (prefix sub (c # cs) \<or> str_includes cs sub)"

text \<open>
  \<open>a || d\<close> for an attribute or a style entry \<open>a\<close> that may be missing: the default
  \<open>d\<close> replaces a missing entry and an empty string alike (both are falsy).
\<close>

definition or_default :: "string option \<Rightarrow> string \<Rightarrow> string" where
  "or_default a d = (case a of None \<Rightarrow> d | Some s \<Rightarrow> if s = [] then d else s)"

section \<open>The style parser\<close>

text \<open>
  \<^verbatim>\<open>
  private _parseStyle(style: string): Record<string, string> {
    const result: Record<string, string> = {};
    if (!style) { return result; }
    style.split(';').forEach(part => {
      const [key, value] = part.split('=');
      if (key && value !== undefined) {
        result[key.trim()] = value.trim();
      }
    });
    return result;
  }
  \<close>
  The destructuring keeps the first two fields of \<open>part.split('=')\<close>; \<open>value\<close> is
  undefined when there is only one. The result is a plain object, so storing a string
  under the key \<open>__proto__\<close> calls the setter of \<open>Object.prototype\<close>, which ignores
  it: that key is never stored.
\<close>

type_synonym style_map = "string \<rightharpoonup> string"

definition put_style :: "style_map \<Rightarrow> string \<Rightarrow> style_map" where
  "put_style result part =
     (case split_on CHR ''='' part of
        key # val # _ \<Rightarrow>
          if key \<noteq> [] then
            (if trim key = ''__proto__'' then result else result(trim key \<mapsto> trim val))
          else result
      | _ \<Rightarrow> result)"

definition parseStyle :: "string \<Rightarrow> style_map" where
  "parseStyle style =
     (if style = [] then Map.empty
      else foldl put_style Map.empty (split_on CHR '';'' style))"

text \<open>
  The entries of a style string, said without the fields of \<open>split\<close>: a segment with
  an \<open>=\<close> and a non-empty text before it gives the pair of that text and of the text
  between its first and its second \<open>=\<close> (up to the end of the segment when there is no
  second one), both trimmed; any other segment gives nothing.
\<close>

definition style_entry :: "string \<Rightarrow> (string \<times> string) option" where
  "style_entry part =
     (let key = takeWhile (\<lambda>c. c \<noteq> CHR ''='') part;
          rest = dropWhile (\<lambda>c. c \<noteq> CHR ''='') part
      in if rest = [] \<or> key = [] then None
         else Some (trim key, trim (takeWhile (\<lambda>c. c \<noteq> CHR ''='') (tl rest))))"

definition style_entries :: "string \<Rightarrow> (string \<times> string) list" where
  "style_entries style = List.map_filter style_entry (split_on CHR '';'' style)"

section \<open>The graph model and the host\<close>

text \<open>
  What the widget reads of the parsed markup, one field per query of the source. An
  attribute is \<open>None\<close> when \<open>getAttribute\<close> returns \<open>null\<close>; an element is \<open>None\<close> when
  \<open>querySelector\<close> finds none. \<open>geo_sourcePoint\<close> and \<open>geo_targetPoint\<close> are the first
  \<open>mxPoint\<close> with \<open>as="sourcePoint"\<close> and with \<open>as="targetPoint"\<close>, \<open>geo_points\<close> are the
  \<open>mxPoint\<close> elements with no \<open>as\<close> attribute, in document order. \<open>cell_label\<close> is the
  attribute \<open>value\<close> of the cell.
\<close>

record mxPoint =
  point_x :: "string option"
  point_y :: "string option"

record mxGeometry =
  geo_x :: "string option"
  geo_y :: "string option"
  geo_width :: "string option"
  geo_height :: "string option"
  geo_sourcePoint :: "mxPoint option"
  geo_targetPoint :: "mxPoint option"
  geo_points :: "mxPoint list"

record mxCell =
  cell_id :: "string option"
  cell_style :: "string option"
  cell_label :: "string option"
  cell_vertex :: "string option"
  cell_edge :: "string option"
  cell_source :: "string option"
  cell_target :: "string option"
  cell_geometry :: "mxGeometry option"

text \<open>
  A model element: \<open>model_root\<close> is \<open>None\<close> when it has no \<open>root\<close> element, and
  otherwise the \<open>mxCell\<close> elements below its root, in document order.
\<close>

record mxGraphModel =
  model_root :: "mxCell list option"

text \<open>
  A page element (\<open>diagram\<close>) with the first model element inside it, if any, and its
  text content. A parsed document with the text of its \<open>parsererror\<close> element, if any,
  its page elements and its first model element.
\<close>

record diagram =
  diagram_model :: "mxGraphModel option"
  diagram_textContent :: string

record document =
  doc_parsererror :: "string option"
  doc_diagrams :: "diagram list"
  doc_model :: "mxGraphModel option"

type_synonym byte = "8 word"

text \<open>
  The functions of the host. \<open>htmlTextContent\<close> is the text content of an element whose
  \<open>innerHTML\<close> was set to the argument; \<open>parseFromString\<close> is the \<open>DOMParser\<close> for
  \<open>text/xml\<close>. \<open>atob\<close> and \<open>decodeURIComponent\<close> are \<open>None\<close> where they throw.
  \<open>inflateRaw\<close> gives the chunks that a \<open>DecompressionStream('deflate-raw')\<close> fed with the
  bytes lets its reader read before it reports \<open>done\<close>, and \<open>None\<close> when the stream
  fails. \<open>utf8Decode\<close> is \<open>new TextDecoder().decode\<close>. \<open>parseFloat\<close> is taken with finite
  values only.
\<close>

record platform =
  parseFloat :: "string \<Rightarrow> real"
  htmlTextContent :: "string \<Rightarrow> string"
  parseFromString :: "string \<Rightarrow> document"
  atob :: "string \<Rightarrow> string option"
  inflateRaw :: "byte list \<Rightarrow> byte list list option"
  utf8Decode :: "byte list \<Rightarrow> string"
  decodeURIComponent :: "string \<Rightarrow> string option"

text \<open>
  \<^verbatim>\<open>
  private _stripHtml(html: string): string {
    const tmp = document.createElement('div');
    tmp.innerHTML = html;
    return tmp.textContent || tmp.innerText || '';
  }
  \<close>
\<close>

definition stripHtml :: "platform \<Rightarrow> string \<Rightarrow> string" where
  "stripHtml P html = htmlTextContent P html"

section \<open>Edges\<close>

text \<open>A resolved vertex box, an entry of the table that the first pass builds.\<close>

record box =
  box_x :: real
  box_y :: real
  box_width :: real
  box_height :: real

text \<open>\<open>d || 1\<close> and \<open>r || 0\<close> on numbers: zero is falsy.\<close>

definition or_one :: "real \<Rightarrow> real" where
  "or_one d = (if d = 0 then 1 else d)"

definition or_zero :: "real \<Rightarrow> real" where
  "or_zero r = (if r = 0 then 0 else r)"

text \<open>
  The branch of \<open>_createEdge\<close> for an edge between two resolved boxes:
  \<^verbatim>\<open>
      x1 = source.x + source.width / 2;    y1 = source.y + source.height / 2;
      x2 = target.x + target.width / 2;    y2 = target.y + target.height / 2;
      const dx = x2 - x1;   const dy = y2 - y1;
      const len = Math.sqrt(dx * dx + dy * dy);
      if (len > 0) {
        const sourceRatio =
          Math.min(source.width / 2 / Math.abs(dx || 1),
                   source.height / 2 / Math.abs(dy || 1)) || 0;
        x1 += dx * Math.min(sourceRatio, 0.5);
        y1 += dy * Math.min(sourceRatio, 0.5);
        const targetRatio =
          Math.min(target.width / 2 / Math.abs(dx || 1),
                   target.height / 2 / Math.abs(dy || 1)) || 0;
        x2 -= dx * Math.min(targetRatio, 0.5);
        y2 -= dy * Math.min(targetRatio, 0.5);
      }
  \<close>
\<close>

definition connect :: "box \<Rightarrow> box \<Rightarrow> (real \<times> real) \<times> (real \<times> real)" where
  "connect source target =
     (let x1 = box_x source + box_width source / 2;
          y1 = box_y source + box_height source / 2;
          x2 = box_x target + box_width target / 2;
          y2 = box_y target + box_height target / 2;
          dx = x2 - x1;
          dy = y2 - y1;
          len = sqrt (dx * dx + dy * dy)
      in if len > 0 then
           (let sourceRatio =
                  or_zero (min (box_width source / 2 / \<bar>or_one dx\<bar>)
                               (box_height source / 2 / \<bar>or_one dy\<bar>));
                targetRatio =
                  or_zero (min (box_width target / 2 / \<bar>or_one dx\<bar>)
                               (box_height target / 2 / \<bar>or_one dy\<bar>))
            in ((x1 + dx * min sourceRatio (1 / 2), y1 + dy * min sourceRatio (1 / 2)),
                (x2 - dx * min targetRatio (1 / 2), y2 - dy * min targetRatio (1 / 2))))
         else ((x1, y1), (x2, y2)))"

text \<open>
  The two ends of an edge: the explicit source and target points when the geometry has
  both, else the clipped centers of the two boxes when both are resolved, else none
  (\<open>_createEdge\<close> returns \<open>null\<close>).
\<close>

definition point_of :: "platform \<Rightarrow> mxPoint \<Rightarrow> real \<times> real" where
  "point_of P p =
     (parseFloat P (or_default (point_x p) ''0''), parseFloat P (or_default (point_y p) ''0''))"

definition edge_ends ::
  "platform \<Rightarrow> mxGeometry option \<Rightarrow> box option \<Rightarrow> box option
     \<Rightarrow> ((real \<times> real) \<times> (real \<times> real)) option" where
  "edge_ends P geometry source target =
     (case (Option.bind geometry geo_sourcePoint, Option.bind geometry geo_targetPoint) of
        (Some sourcePoint, Some targetPoint) \<Rightarrow>
          Some (point_of P sourcePoint, point_of P targetPoint)
      | _ \<Rightarrow>
          (case (source, target) of
             (Some s, Some t) \<Rightarrow> Some (connect s t)
           | _ \<Rightarrow> None))"

text \<open>
  The path of an edge: \<open>M x1 y1\<close>, then \<open>L px py\<close> for every waypoint with the attribute
  texts as they stand (\<open>'0'\<close> for a missing one), then \<open>L x2 y2\<close>.
\<close>

record svg_path =
  path_from :: "real \<times> real"
  path_via :: "(string \<times> string) list"
  path_to :: "real \<times> real"

record svg_edge_label =
  elabel_x :: real
  elabel_y :: real
  elabel_content :: string

record svg_edge =
  edge_path :: svg_path
  edge_stroke :: string
  edge_stroke_width :: string
  edge_dasharray :: "string option"
  edge_marker_end :: "string option"
  edge_marker_start :: "string option"
  edge_label :: "svg_edge_label option"

definition createEdge ::
  "platform \<Rightarrow> mxCell \<Rightarrow> string \<Rightarrow> box option \<Rightarrow> box option \<Rightarrow> svg_edge option" where
  "createEdge P cell style source target =
     (let geometry = cell_geometry cell;
          styles = parseStyle style;
          strokeColor = or_default (styles ''strokeColor'') ''#000000'';
          strokeWidth = or_default (styles ''strokeWidth'') ''1''
      in case edge_ends P geometry source target of
           None \<Rightarrow> None
         | Some ((x1, y1), (x2, y2)) \<Rightarrow>
             (let points = (case geometry of None \<Rightarrow> [] | Some g \<Rightarrow> geo_points g);
                  pathD = \<lparr>path_from = (x1, y1),
                           path_via = map (\<lambda>p. (or_default (point_x p) ''0'',
                                                  or_default (point_y p) ''0'')) points,
                           path_to = (x2, y2)\<rparr>;
                  endArrow = or_default (styles ''endArrow'') ''classic'';
                  startArrow = or_default (styles ''startArrow'') ''none'';
                  label = or_default (cell_label cell) []
              in Some \<lparr>edge_path = pathD,
                       edge_stroke = strokeColor,
                       edge_stroke_width = strokeWidth,
                       edge_dasharray = (if styles ''dashed'' = Some ''1'' then Some ''5,3'' else None),
                       edge_marker_end =
                         (if endArrow \<noteq> ''none'' then
                            (if endArrow = ''open'' then Some ''url(#arrow-open)''
                             else Some ''url(#arrow)'')
                          else None),
                       edge_marker_start =
                         (if startArrow \<noteq> ''none'' then Some ''url(#arrow)'' else None),
                       edge_label =
                         (if label \<noteq> [] then
                            Some \<lparr>elabel_x = (x1 + x2) / 2,
                                  elabel_y = (y1 + y2) / 2 - 5,
                                  elabel_content = stripHtml P label\<rparr>
                          else None)\<rparr>))"

text \<open>
  The clipping ratio of a box for the deltas \<open>dx\<close> and \<open>dy\<close> between the two centers, in
  closed form: the smaller of half the width over \<open>|dx|\<close> and half the height over
  \<open>|dy|\<close>, where a delta that is zero counts as 1, capped at one half; no clipping at
  all when the centers coincide.
\<close>

definition center :: "box \<Rightarrow> real \<times> real" where
  "center b = (box_x b + box_width b / 2, box_y b + box_height b / 2)"

definition clip_ratio :: "box \<Rightarrow> real \<Rightarrow> real \<Rightarrow> real" where
  "clip_ratio b dx dy =
     (if dx = 0 \<and> dy = 0 then 0
      else min (min (box_width b / 2 / \<bar>if dx = 0 then 1 else dx\<bar>)
                    (box_height b / 2 / \<bar>if dy = 0 then 1 else dy\<bar>))
               (1 / 2))"

text \<open>
  The ends as claim C3 words them: each center pulled toward the other by
  \<open>min(halfWidth/|dx|, halfHeight/|dy|)\<close> capped at one half. The quotient by a delta
  that is zero is unbounded, so it does not bound the minimum.
\<close>

definition claimed_ratio :: "box \<Rightarrow> real \<Rightarrow> real \<Rightarrow> real" where
  "claimed_ratio b dx dy =
     min (if dx = 0 then (if dy = 0 then 1 / 2 else box_height b / 2 / \<bar>dy\<bar>)
          else if dy = 0 then box_width b / 2 / \<bar>dx\<bar>
          else min (box_width b / 2 / \<bar>dx\<bar>) (box_height b / 2 / \<bar>dy\<bar>))
         (1 / 2)"

definition claimed_connect :: "box \<Rightarrow> box \<Rightarrow> (real \<times> real) \<times> (real \<times> real)" where
  "claimed_connect s t =
     (let dx = fst (center t) - fst (center s);
          dy = snd (center t) - snd (center s)
      in ((fst (center s) + dx * claimed_ratio s dx dy,
           snd (center s) + dy * claimed_ratio s dx dy),
          (fst (center t) - dx * claimed_ratio t dx dy,
           snd (center t) - dy * claimed_ratio t dx dy)))"

text \<open>The two boxes of the worked example of claim C3, and two boxes a quarter unit high.\<close>

definition box_a :: box where
  "box_a = \<lparr>box_x = 0, box_y = 0, box_width = 100, box_height = 40\<rparr>"

definition box_b :: box where
  "box_b = \<lparr>box_x = 200, box_y = 0, box_width = 100, box_height = 40\<rparr>"

definition flat_a :: box where
  "flat_a = \<lparr>box_x = 0, box_y = 0, box_width = 100, box_height = 1 / 4\<rparr>"

definition flat_b :: box where
  "flat_b = \<lparr>box_x = 200, box_y = 0, box_width = 100, box_height = 1 / 4\<rparr>"

text \<open>
  A host for the worked examples. \<open>parseFloat\<close> reads a run of decimal digits. The text
  content of markup is read for simple markup only: a tag, from \<open><\<close> followed by a
  letter or a slash up to the next \<open>>\<close>, is dropped, and then the character references
  \<open>&lt;\<close>, \<open>&gt;\<close> and \<open>&amp;\<close> are replaced by their characters; so \<open>one<BR/>two\<close> has
  the text \<open>onetwo\<close> and \<open>one&lt;br&gt;two\<close> has the text \<open>one<br>two\<close>, as in the
  browser. Every document parses to one without pages or model, and the decoding
  functions fail.
\<close>

definition digits_real :: "string \<Rightarrow> real" where
  "digits_real s = foldl (\<lambda>a c. 10 * a + real (of_char c - 48)) 0 s"

definition is_letter :: "char \<Rightarrow> bool" where
  "is_letter c =
     ((97 \<le> (of_char c :: nat) \<and> (of_char c :: nat) \<le> 122)
      \<or> (65 \<le> (of_char c :: nat) \<and> (of_char c :: nat) \<le> 90))"

fun drop_tags :: "bool \<Rightarrow> string \<Rightarrow> string" where
  "drop_tags inside [] = []"
| "drop_tags True (c # cs) = drop_tags (c \<noteq> CHR ''>'') cs"
| "drop_tags False (c # cs) =
     (if c = CHR ''<''
         \<and> (case cs of [] \<Rightarrow> False | d # _ \<Rightarrow> is_letter d \<or> d = CHR ''/'')
      then drop_tags True cs
      else c # drop_tags False cs)"

fun decode_refs :: "nat \<Rightarrow> string \<Rightarrow> string" where
  "decode_refs n [] = []"
| "decode_refs (Suc n) (c # cs) = decode_refs n cs"
| "decode_refs 0 (c # cs) =
     (if prefix ''&lt;'' (c # cs) then CHR ''<'' # decode_refs (Suc (Suc (Suc 0))) cs
      else if prefix ''&gt;'' (c # cs) then CHR ''>'' # decode_refs (Suc (Suc (Suc 0))) cs
      else if prefix ''&amp;'' (c # cs) then CHR ''&'' # decode_refs (Suc (Suc (Suc (Suc 0)))) cs
      else c # decode_refs 0 cs)"

definition markup_text :: "string \<Rightarrow> string" where
  "markup_text s = decode_refs 0 (drop_tags False s)"

definition no_document :: document where
  "no_document = \<lparr>doc_parsererror = None, doc_diagrams = [], doc_model = None\<rparr>"

definition plain_host :: platform where
  "plain_host =
     \<lparr>parseFloat = digits_real,
      htmlTextContent = markup_text,
      parseFromString = (\<lambda>_. no_document),
      atob = (\<lambda>_. None),
      inflateRaw = (\<lambda>_. None),
      utf8Decode = map (\<lambda>b. char_of (unat b)),
      decodeURIComponent = (\<lambda>_. None)\<rparr>"

text \<open>An edge cell from \<open>a\<close> to \<open>b\<close> with no geometry, hence no explicit points.\<close>

definition plain_edge :: mxCell where
  "plain_edge =
     \<lparr>cell_id = Some ''e'', cell_style = None, cell_label = None, cell_vertex = None,
      cell_edge = Some ''1'', cell_source = Some ''a'', cell_target = Some ''b'',
      cell_geometry = None\<rparr>"

section \<open>Shapes and labels\<close>

text \<open>
  The element that \<open>_createShape\<close> draws for a vertex: an \<open>ellipse\<close> with its center and
  radii, a \<open>polygon\<close> with its points, or a \<open>rect\<close> with its corner, its size and the
  corner radii \<open>rx\<close>, \<open>ry\<close> when they are set. The attribute texts of the source
  (\<open>String(x + width / 2)\<close>) are kept as the numbers they print.
\<close>

datatype svg_element =
  Ellipse real real real real
| Polygon "(real \<times> real) list"
| Rect real real real real "(real \<times> real) option"

record svg_tspan =
  tspan_x :: real
  tspan_y :: real
  tspan_content :: string

text \<open>
  The content of a \<open>text\<close> element: its own text for a single line, or one \<open>tspan\<close> per
  line.
\<close>

datatype label_body = Single string | Lines "svg_tspan list"

record svg_label =
  label_x :: real
  label_y :: real
  label_font_size :: string
  label_fill :: string
  label_body :: label_body

record svg_shape =
  shape_element :: svg_element
  shape_fill :: string
  shape_stroke :: string
  shape_stroke_width :: string
  shape_dasharray :: "string option"
  shape_label :: "svg_label option"

text \<open>
  \<open>cleanText.split(/\n|<br\s*\/?>/i)\<close>. \<open>line_break s\<close> is the rest of \<open>s\<close> after a
  separator that starts at its head, if one does: a line feed, or \<open><br\<close> in either
  case followed by white space, an optional slash and \<open>>\<close>. The three parts of the tag
  share no character, so the greedy match is the only one.
\<close>

definition tag_close :: "string \<Rightarrow> string option" where
  "tag_close s =
     (case s of
        [] \<Rightarrow> None
      | c # r \<Rightarrow>
          if c = CHR ''>'' then Some r
          else if c = CHR ''/'' then
            (case r of [] \<Rightarrow> None | d # r' \<Rightarrow> if d = CHR ''>'' then Some r' else None)
          else None)"

definition line_break :: "string \<Rightarrow> string option" where
  "line_break s =
     (case s of
        [] \<Rightarrow> None
      | c # r \<Rightarrow>
          if c = CHR 0x0A then Some r
          else if c = CHR ''<'' then
            (case r of
               b # e # r' \<Rightarrow>
                 if (b = CHR ''b'' \<or> b = CHR ''B'') \<and> (e = CHR ''r'' \<or> e = CHR ''R'')
                 then tag_close (dropWhile is_space r')
                 else None
             | _ \<Rightarrow> None)
          else None)"

function split_lines :: "string \<Rightarrow> string list" where
  "split_lines [] = [[]]"
| "split_lines (c # cs) =
     (case line_break (c # cs) of
        Some rest \<Rightarrow> [] # split_lines rest
      | None \<Rightarrow>
          (case split_lines cs of
             [] \<Rightarrow> [[c]]
           | f # fs \<Rightarrow> (c # f) # fs))"
  by pat_completeness auto
termination
proof (relation "measure length")
  fix c :: char and cs rest :: string
  assume m: "line_break (c # cs) = Some rest"
  have close: "length r \<le> length s" if "tag_close s = Some r" for s r
    using that by (auto simp: tag_close_def split: list.splits if_splits)
  have "length rest \<le> length cs"
  proof (cases "c = CHR 0x0A")
    case True
    with m show ?thesis by (simp add: line_break_def)
  next
    case False
    with m obtain b e r' where cs: "cs = b # e # r'"
      and t: "tag_close (dropWhile is_space r') = Some rest"
      by (auto simp: line_break_def split: list.splits if_splits)
    have "length rest \<le> length (dropWhile is_space r')"
      using close [OF t] .
    also have "\<dots> \<le> length r'"
      by (rule length_dropWhile_le)
    finally show ?thesis
      by (simp add: cs)
  qed
  then show "(rest, c # cs) \<in> measure length"
    by simp
qed simp_all

text \<open>
  \<^verbatim>\<open>
  private _createShape(x, y, width, height, style: string, value: string) {
    const styles = this._parseStyle(style);
    const shape = styles.shape || '';
    const fillColor = styles.fillColor || '#ffffff';
    const strokeColor = styles.strokeColor || '#000000';
    const strokeWidth = styles.strokeWidth || '1';
    const fontColor = styles.fontColor || '#000000';
    const fontSize = styles.fontSize || '12';
    if (shape === 'ellipse' || style.includes('ellipse')) { ... ellipse ... }
    else if (shape === 'rhombus' || style.includes('rhombus')) { ... polygon ... }
    else if (shape === 'hexagon' || style.includes('hexagon')) { ... polygon ... }
    else if (shape === 'triangle' || style.includes('triangle')) { ... polygon ... }
    else if (shape === 'cylinder' || style.includes('cylinder')) { ... rect, rx, ry ... }
    else { ... rect ...; if (styles.rounded === '1') { rx = '5'; ry = '5' } }
    if (styles.fillColor === 'none' || style.includes('fillColor=none')) fill = 'none'
    else fill = fillColor
    ...
    if (value) {
      ... text at (x + width / 2, y + height / 2) ...
      const cleanText = this._stripHtml(value);
      const lines = cleanText.split(/\n|<br\s*\/?>/i);
      if (lines.length === 1) { text.textContent = cleanText; }
      else {
        const lineHeight = parseFloat(fontSize) * 1.2;
        const startY = y + height / 2 - ((lines.length - 1) * lineHeight) / 2;
        lines.forEach((line, i) => {
          ... tspan at (x + width / 2, startY + i * lineHeight), line.trim() ...
        });
      }
    }
    return g;
  }
  \<close>
\<close>

definition createLabel ::
  "platform \<Rightarrow> real \<Rightarrow> real \<Rightarrow> real \<Rightarrow> real \<Rightarrow> string \<Rightarrow> string \<Rightarrow> string \<Rightarrow> svg_label" where
  "createLabel P x y width height fontSize fontColor label =
     (let cleanText = stripHtml P label;
          lines = split_lines cleanText
      in \<lparr>label_x = x + width / 2,
          label_y = y + height / 2,
          label_font_size = fontSize,
          label_fill = fontColor,
          label_body =
            (if length lines = 1 then Single cleanText
             else
               (let lineHeight = parseFloat P fontSize * (12 / 10);
                    startY = y + height / 2 - (real (length lines - 1) * lineHeight) / 2
                in Lines (map (\<lambda>(i, line).
                                 \<lparr>tspan_x = x + width / 2,
                                  tspan_y = startY + real i * lineHeight,
                                  tspan_content = trim line\<rparr>)
                              (enumerate 0 lines))))\<rparr>)"

definition createShape ::
  "platform \<Rightarrow> real \<Rightarrow> real \<Rightarrow> real \<Rightarrow> real \<Rightarrow> string \<Rightarrow> string \<Rightarrow> svg_shape" where
  "createShape P x y width height style label =
     (let styles = parseStyle style;
          shape = or_default (styles ''shape'') [];
          fillColor = or_default (styles ''fillColor'') ''#ffffff'';
          strokeColor = or_default (styles ''strokeColor'') ''#000000'';
          strokeWidth = or_default (styles ''strokeWidth'') ''1'';
          fontColor = or_default (styles ''fontColor'') ''#000000'';
          fontSize = or_default (styles ''fontSize'') ''12'';
          shapeElement =
            (if shape = ''ellipse'' \<or> str_includes style ''ellipse'' then
               Ellipse (x + width / 2) (y + height / 2) (width / 2) (height / 2)
             else if shape = ''rhombus'' \<or> str_includes style ''rhombus'' then
               Polygon [(x + width / 2, y), (x + width, y + height / 2),
                        (x + width / 2, y + height), (x, y + height / 2)]
             else if shape = ''hexagon'' \<or> str_includes style ''hexagon'' then
               (let hw = width / 4
                in Polygon [(x + hw, y), (x + width - hw, y), (x + width, y + height / 2),
                            (x + width - hw, y + height), (x + hw, y + height),
                            (x, y + height / 2)])
             else if shape = ''triangle'' \<or> str_includes style ''triangle'' then
               Polygon [(x + width / 2, y), (x + width, y + height), (x, y + height)]
             else if shape = ''cylinder'' \<or> str_includes style ''cylinder'' then
               Rect x y width height (Some (width / 4, height / 8))
             else
               Rect x y width height
                 (if styles ''rounded'' = Some ''1'' then Some (5, 5) else None))
      in \<lparr>shape_element = shapeElement,
          shape_fill =
            (if styles ''fillColor'' = Some ''none'' \<or> str_includes style ''fillColor=none''
             then ''none'' else fillColor),
          shape_stroke = strokeColor,
          shape_stroke_width = strokeWidth,
          shape_dasharray = (if styles ''dashed'' = Some ''1'' then Some ''5,3'' else None),
          shape_label =
            (if label \<noteq> [] then
               Some (createLabel P x y width height fontSize fontColor label)
             else None)\<rparr>)"

text \<open>
  The element of each kind for a box, and the kind that the style selects, said by the
  substring tests alone: the first keyword of \<open>ellipse\<close>, \<open>rhombus\<close>, \<open>hexagon\<close>,
  \<open>triangle\<close>, \<open>cylinder\<close> that occurs anywhere in the style string.
\<close>

definition shape_keywords :: "string list" where
  "shape_keywords = [''ellipse'', ''rhombus'', ''hexagon'', ''triangle'', ''cylinder'']"

definition keyword_element ::
  "string \<Rightarrow> real \<Rightarrow> real \<Rightarrow> real \<Rightarrow> real \<Rightarrow> svg_element" where
  "keyword_element k x y width height =
     (if k = ''ellipse'' then
        Ellipse (x + width / 2) (y + height / 2) (width / 2) (height / 2)
      else if k = ''rhombus'' then
        Polygon [(x + width / 2, y), (x + width, y + height / 2),
                 (x + width / 2, y + height), (x, y + height / 2)]
      else if k = ''hexagon'' then
        Polygon [(x + width / 4, y), (x + width - width / 4, y), (x + width, y + height / 2),
                 (x + width - width / 4, y + height), (x + width / 4, y + height),
                 (x, y + height / 2)]
      else if k = ''triangle'' then
        Polygon [(x + width / 2, y), (x + width, y + height), (x, y + height)]
      else Rect x y width height (Some (width / 4, height / 8)))"



section \<open>The two passes of the layout\<close>

text \<open>
  \<^verbatim>\<open>
  private _mxGraphToSvg(model: Element): SVGSVGElement {
    ...
    const root = model.querySelector('root');
    if (!root) {
      svg.innerHTML += '<text x="50" y="50">Empty diagram</text>';
      return svg;
    }
    const cells = root.querySelectorAll('mxCell');
    let minX = Infinity, minY = Infinity;
    let maxX = -Infinity, maxY = -Infinity;
    const vertices = new Map();
    cells.forEach(cell => {
      const id = cell.getAttribute('id') || '';
      const geometry = cell.querySelector('mxGeometry');
      const vertex = cell.getAttribute('vertex') === '1';
      if (geometry && vertex) {
        const x = parseFloat(geometry.getAttribute('x') || '0');
        const y = parseFloat(geometry.getAttribute('y') || '0');
        const width = parseFloat(geometry.getAttribute('width') || '100');
        const height = parseFloat(geometry.getAttribute('height') || '40');
        vertices.set(id, { x, y, width, height });
      }
    });
    cells.forEach(cell => {
      ...
      if (geometry && vertex) {
        ... x, y, width, height as above ...
        minX = Math.min(minX, x);          minY = Math.min(minY, y);
        maxX = Math.max(maxX, x + width);  maxY = Math.max(maxY, y + height);
        const shape = this._createShape(x, y, width, height, style, value);
        if (shape) { g.appendChild(shape); }
      }
      if (edge) {
        const source = cell.getAttribute('source') || '';
        const target = cell.getAttribute('target') || '';
        const edgePath = this._createEdge(cell, style, vertices.get(source), vertices.get(target));
        if (edgePath) { g.appendChild(edgePath); }
      }
    });
    const padding = 30;
    if (minX !== Infinity) {
      viewBox = `${minX - padding} ${minY - padding} ${maxX - minX + 2 * padding} ${maxY - minY + 2 * padding}`;
    } else {
      viewBox = '0 0 400 300';
    }
    ...
  }
  \<close>
  The four running extremes start at the infinities and change together, at every
  vertex: they are one optional record, \<open>None\<close> until the first vertex.
\<close>

record bounds =
  minX :: real
  minY :: real
  maxX :: real
  maxY :: real

datatype drawable = Shape svg_shape | Edge svg_edge

datatype svg_content = EmptyDiagram | Group "drawable list"

text \<open>
  The \<open>svg\<close> element: its \<open>viewBox\<close> attribute \<open>(min-x, min-y, width, height)\<close>, \<open>None\<close>
  when the attribute is not set, and its content.
\<close>

record svg =
  svg_viewBox :: "(real \<times> real \<times> real \<times> real) option"
  svg_content :: svg_content

definition vertex_box :: "platform \<Rightarrow> mxGeometry \<Rightarrow> box" where
  "vertex_box P geometry =
     \<lparr>box_x = parseFloat P (or_default (geo_x geometry) ''0''),
      box_y = parseFloat P (or_default (geo_y geometry) ''0''),
      box_width = parseFloat P (or_default (geo_width geometry) ''100''),
      box_height = parseFloat P (or_default (geo_height geometry) ''40'')\<rparr>"

definition collect_vertex :: "platform \<Rightarrow> (string \<rightharpoonup> box) \<Rightarrow> mxCell \<Rightarrow> (string \<rightharpoonup> box)" where
  "collect_vertex P vertices cell =
     (let ident = or_default (cell_id cell) [];
          vertex = (cell_vertex cell = Some ''1'')
      in case cell_geometry cell of
           Some geometry \<Rightarrow>
             if vertex then vertices(ident \<mapsto> vertex_box P geometry) else vertices
         | None \<Rightarrow> vertices)"

definition grow :: "bounds option \<Rightarrow> box \<Rightarrow> bounds option" where
  "grow b v =
     (case b of
        None \<Rightarrow>
          Some \<lparr>minX = box_x v, minY = box_y v,
                maxX = box_x v + box_width v, maxY = box_y v + box_height v\<rparr>
      | Some m \<Rightarrow>
          Some \<lparr>minX = min (minX m) (box_x v), minY = min (minY m) (box_y v),
                maxX = max (maxX m) (box_x v + box_width v),
                maxY = max (maxY m) (box_y v + box_height v)\<rparr>)"

definition render_cell ::
  "platform \<Rightarrow> (string \<rightharpoonup> box) \<Rightarrow> bounds option \<times> drawable list \<Rightarrow> mxCell
     \<Rightarrow> bounds option \<times> drawable list" where
  "render_cell P vertices state cell =
     (let style = or_default (cell_style cell) [];
          label = or_default (cell_label cell) [];
          vertex = (cell_vertex cell = Some ''1'');
          edge = (cell_edge cell = Some ''1'');
          state1 =
            (case cell_geometry cell of
               Some geometry \<Rightarrow>
                 if vertex then
                   (let v = vertex_box P geometry
                    in (grow (fst state) v,
                        snd state @
                          [Shape (createShape P (box_x v) (box_y v) (box_width v)
                                    (box_height v) style label)]))
                 else state
             | None \<Rightarrow> state)
      in if edge then
           (case createEdge P cell style
                   (vertices (or_default (cell_source cell) []))
                   (vertices (or_default (cell_target cell) [])) of
              Some edgePath \<Rightarrow> (fst state1, snd state1 @ [Edge edgePath])
            | None \<Rightarrow> state1)
         else state1)"

definition mxGraphToSvg :: "platform \<Rightarrow> mxGraphModel \<Rightarrow> svg" where
  "mxGraphToSvg P model =
     (case model_root model of
        None \<Rightarrow> \<lparr>svg_viewBox = None, svg_content = EmptyDiagram\<rparr>
      | Some cells \<Rightarrow>
          (let vertices = foldl (collect_vertex P) Map.empty cells;
               state = foldl (render_cell P vertices) (None, []) cells;
               padding = 30
           in \<lparr>svg_viewBox =
                  Some (case fst state of
                          Some m \<Rightarrow>
                            (minX m - padding, minY m - padding,
                             maxX m - minX m + 2 * padding, maxY m - minY m + 2 * padding)
                        | None \<Rightarrow> (0, 0, 400, 300)),
                svg_content = Group (snd state)\<rparr>))"

text \<open>
  The vertices of a list of cells, said at once: for every cell flagged as a vertex that
  has a geometry, in document order, its id and its box; and the bounding rectangle of a
  list of boxes.
\<close>

definition vertex_entries :: "platform \<Rightarrow> mxCell list \<Rightarrow> (string \<times> box) list" where
  "vertex_entries P cells =
     List.map_filter
       (\<lambda>cell. case cell_geometry cell of
                 None \<Rightarrow> None
               | Some geometry \<Rightarrow>
                   if cell_vertex cell = Some ''1''
                   then Some (or_default (cell_id cell) [], vertex_box P geometry)
                   else None)
       cells"

definition bounding :: "box list \<Rightarrow> bounds" where
  "bounding bs =
     \<lparr>minX = Min (box_x ` set bs),
      minY = Min (box_y ` set bs),
      maxX = Max ((\<lambda>b. box_x b + box_width b) ` set bs),
      maxY = Max ((\<lambda>b. box_y b + box_height b) ` set bs)\<rparr>"

text \<open>A model of two vertices \<open>a\<close> and \<open>b\<close> and the edge between them, for the examples.\<close>

definition vertex_cell :: "string \<Rightarrow> string option \<Rightarrow> mxCell" where
  "vertex_cell ident gx =
     \<lparr>cell_id = Some ident, cell_style = None, cell_label = None, cell_vertex = Some ''1'',
      cell_edge = None, cell_source = None, cell_target = None,
      cell_geometry =
        Some \<lparr>geo_x = gx, geo_y = None, geo_width = None, geo_height = None,
              geo_sourcePoint = None, geo_targetPoint = None, geo_points = []\<rparr>\<rparr>"

definition two_boxes :: mxGraphModel where
  "two_boxes =
     \<lparr>model_root = Some [vertex_cell ''a'' None, vertex_cell ''b'' (Some ''200''), plain_edge]\<rparr>"

section \<open>The decompression glue\<close>

text \<open>
  \<^verbatim>\<open>
  private async _decompressDiagram(compressed: string): Promise<string> {
    const decoded = atob(compressed.replace(/-/g, '+').replace(/_/g, '/'));
    const bytes = new Uint8Array(decoded.length);
    for (let i = 0; i < decoded.length; i++) { bytes[i] = decoded.charCodeAt(i); }
    const ds = new DecompressionStream('deflate-raw');
    const writer = ds.writable.getWriter();
    writer.write(bytes);
    writer.close();
    const reader = ds.readable.getReader();
    const chunks: Uint8Array[] = [];
    while (true) {
      const { done, value } = await reader.read();
      if (done) { break; }
      chunks.push(value);
    }
    const totalLength = chunks.reduce((acc, chunk) => acc + chunk.length, 0);
    const result = new Uint8Array(totalLength);
    let offset = 0;
    for (const chunk of chunks) { result.set(chunk, offset); offset += chunk.length; }
    return decodeURIComponent(new TextDecoder().decode(result));
  }
  \<close>
  Whatever the method throws is the one error \<open>DecodeError\<close>. The other errors of the
  widget are named after their messages: \<open>Empty diagram file\<close>, \<open>Invalid XML: \<close>
  followed by the text of the parser, \<open>No diagram content found\<close>, \<open>Page n not
  found\<close> and \<open>Could not parse diagram content\<close>.
\<close>

datatype render_error =
  EmptyDocument
| InvalidDocument string
| NoDiagramContent
| PageNotFound int
| UnparsableContent
| DecodeError

definition replace_all :: "char \<Rightarrow> char \<Rightarrow> string \<Rightarrow> string" where
  "replace_all a b s = map (\<lambda>c. if c = a then b else c) s"

text \<open>The reading loop: every chunk of the stream is pushed, in order, until \<open>done\<close>.\<close>

fun read_all :: "byte list list \<Rightarrow> byte list list \<Rightarrow> byte list list" where
  "read_all chunks [] = chunks"
| "read_all chunks (v # stream) = read_all (chunks @ [v]) stream"

text \<open>\<open>result.set(chunk, offset)\<close>, for a chunk that fits.\<close>

definition typed_set :: "byte list \<Rightarrow> byte list \<Rightarrow> nat \<Rightarrow> byte list" where
  "typed_set result chunk offset =
     take offset result @ chunk @ drop (offset + length chunk) result"

definition join_chunks :: "byte list list \<Rightarrow> byte list" where
  "join_chunks chunks =
     (let totalLength = foldl (\<lambda>acc chunk. acc + length chunk) 0 chunks;
          result = replicate totalLength 0
      in fst (foldl (\<lambda>(result, offset) chunk.
                       (typed_set result chunk offset, offset + length chunk))
                (result, 0) chunks))"

definition decompressDiagram :: "platform \<Rightarrow> string \<Rightarrow> render_error + string" where
  "decompressDiagram P compressed =
     (case atob P (replace_all CHR ''_'' CHR ''/'' (replace_all CHR ''-'' CHR ''+'' compressed)) of
        None \<Rightarrow> Inl DecodeError
      | Some decoded \<Rightarrow>
          (let bytes = map of_char decoded
           in case inflateRaw P bytes of
                None \<Rightarrow> Inl DecodeError
              | Some stream \<Rightarrow>
                  (let chunks = read_all [] stream;
                       result = join_chunks chunks
                   in case decodeURIComponent P (utf8Decode P result) of
                        None \<Rightarrow> Inl DecodeError
                      | Some s \<Rightarrow> Inr s)))"

section \<open>The page pipeline\<close>

text \<open>
  The fields of the widget: the two page counters, the stored document text, the
  toolbar (\<open>None\<close> while it is hidden, else the page number and the page count that it
  shows; its two buttons have their click handlers from then on), the content of the
  container, the error that the error pane shows, and the log of the calls to the
  markup parser and to the codec, in order.
\<close>

datatype call = ParseXml string | Decompress string

datatype container = Blank | LoadingBanner | Drawn svg

record widget =
  currentPage :: int
  totalPages :: int
  diagramXml :: "string option"
  toolbar :: "(int \<times> int) option"
  container :: container
  errorDiv :: "render_error option"
  calls :: "call list"

definition new_widget :: widget where
  "new_widget =
     \<lparr>currentPage = 0, totalPages = 1, diagramXml = None, toolbar = None,
      container = Blank, errorDiv = None, calls = []\<rparr>"

text \<open>A call to the markup parser or to the codec is entered in the log.\<close>

definition log_call :: "call \<Rightarrow> widget \<Rightarrow> widget" where
  "log_call c w = w\<lparr>calls := calls w @ [c]\<rparr>"

definition renderMxGraphModel :: "platform \<Rightarrow> mxGraphModel \<Rightarrow> widget \<Rightarrow> widget" where
  "renderMxGraphModel P model w = w\<lparr>container := Drawn (mxGraphToSvg P model)\<rparr>"

text \<open>
  The end of \<open>_renderPage\<close>, for the page content as it stands after the decoding step:
  \<^verbatim>\<open>
    if (diagramContent.includes('<mxGraphModel')) {
      const innerDoc = parser.parseFromString(diagramContent, 'text/xml');
      const mxGraphModel = innerDoc.querySelector('mxGraphModel');
      if (mxGraphModel) { this._renderMxGraphModel(mxGraphModel); return; }
    }
    throw new Error('Could not parse diagram content');
  \<close>
\<close>

definition renderContent ::
  "platform \<Rightarrow> string \<Rightarrow> widget \<Rightarrow> widget \<times> (render_error + unit)" where
  "renderContent P diagramContent w =
     (if str_includes diagramContent ''<mxGraphModel'' then
        (let innerDoc = parseFromString P diagramContent;
             w' = log_call (ParseXml diagramContent) w
         in case doc_model innerDoc of
              Some mxGraphModel \<Rightarrow> (renderMxGraphModel P mxGraphModel w', Inr ())
            | None \<Rightarrow> (w', Inl UnparsableContent))
      else (w, Inl UnparsableContent))"

text \<open>
  \<^verbatim>\<open>
  private async _renderPage(pageIndex: number): Promise<void> {
    if (!this._diagramXml) { return; }
    const parser = new DOMParser();
    const doc = parser.parseFromString(this._diagramXml, 'text/xml');
    const diagrams = doc.querySelectorAll('diagram');
    if (diagrams.length === 0) {
      const mxGraphModel = doc.querySelector('mxGraphModel');
      if (mxGraphModel) { this._renderMxGraphModel(mxGraphModel); return; }
      throw new Error('No diagram content found');
    }
    const diagram = diagrams[pageIndex];
    if (!diagram) { throw new Error(`Page ${pageIndex + 1} not found`); }
    const embeddedModel = diagram.querySelector('mxGraphModel');
    if (embeddedModel) { this._renderMxGraphModel(embeddedModel); return; }
    let diagramContent = diagram.textContent || '';
    if (diagramContent && !diagramContent.includes('<mxGraphModel')) {
      try {
        diagramContent = await this._decompressDiagram(diagramContent);
      } catch (e) {
        console.warn('Decompression failed, trying raw content:', e);
      }
    }
    ... the end, above ...
  }
  \<close>
\<close>

definition renderPage ::
  "platform \<Rightarrow> int \<Rightarrow> widget \<Rightarrow> widget \<times> (render_error + unit)" where
  "renderPage P pageIndex w =
     (case diagramXml w of
        None \<Rightarrow> (w, Inr ())
      | Some xml \<Rightarrow>
          if xml = [] then (w, Inr ())
          else
            (let doc = parseFromString P xml;
                 w1 = log_call (ParseXml xml) w;
                 diagrams = doc_diagrams doc
             in if length diagrams = 0 then
                  (case doc_model doc of
                     Some mxGraphModel \<Rightarrow> (renderMxGraphModel P mxGraphModel w1, Inr ())
                   | None \<Rightarrow> (w1, Inl NoDiagramContent))
                else if pageIndex < 0 \<or> int (length diagrams) \<le> pageIndex then
                  (w1, Inl (PageNotFound (pageIndex + 1)))
                else
                  (let diagram = diagrams ! nat pageIndex
                   in case diagram_model diagram of
                        Some embeddedModel \<Rightarrow> (renderMxGraphModel P embeddedModel w1, Inr ())
                      | None \<Rightarrow>
                          (let diagramContent = diagram_textContent diagram
                           in if diagramContent \<noteq> []
                                 \<and> \<not> str_includes diagramContent ''<mxGraphModel''
                              then
                                (let w2 = log_call (Decompress diagramContent) w1
                                 in case decompressDiagram P diagramContent of
                                      Inr decoded \<Rightarrow> renderContent P decoded w2
                                    | Inl e \<Rightarrow> renderContent P diagramContent w2)
                              else renderContent P diagramContent w1))))"

text \<open>
  \<open>_setupPageNavigation\<close> shows the toolbar with \<open>Page currentPage + 1 of totalPages\<close>
  and installs the two handlers; \<open>_updatePageDisplay\<close> rewrites the page number and
  renders the page, dropping the promise (\<open>void this._renderPage(...)\<close>) and with it any
  error.
\<close>

definition setupPageNavigation :: "widget \<Rightarrow> widget" where
  "setupPageNavigation w = w\<lparr>toolbar := Some (currentPage w + 1, totalPages w)\<rparr>"

definition updatePageDisplay :: "platform \<Rightarrow> widget \<Rightarrow> widget" where
  "updatePageDisplay P w =
     fst (renderPage P (currentPage w)
            (w\<lparr>toolbar := map_option (\<lambda>shown. (currentPage w + 1, snd shown)) (toolbar w)\<rparr>))"

text \<open>
  The two click handlers:
  \<^verbatim>\<open>
    prevPage:  if (this._currentPage > 0) { this._currentPage--; this._updatePageDisplay(); }
    nextPage:  if (this._currentPage < this._totalPages - 1) {
                 this._currentPage++; this._updatePageDisplay(); }
  \<close>
\<close>

definition prevPage :: "platform \<Rightarrow> widget \<Rightarrow> widget" where
  "prevPage P w =
     (if currentPage w > 0 then updatePageDisplay P (w\<lparr>currentPage := currentPage w - 1\<rparr>)
      else w)"

definition nextPage :: "platform \<Rightarrow> widget \<Rightarrow> widget" where
  "nextPage P w =
     (if currentPage w < totalPages w - 1
      then updatePageDisplay P (w\<lparr>currentPage := currentPage w + 1\<rparr>)
      else w)"

text \<open>
  \<^verbatim>\<open>
  private async _renderDiagram(xmlContent: string): Promise<void> {
    const parser = new DOMParser();
    const doc = parser.parseFromString(xmlContent, 'text/xml');
    const parseError = doc.querySelector('parsererror');
    if (parseError) { throw new Error('Invalid XML: ' + parseError.textContent); }
    this._diagramXml = xmlContent;
    const diagrams = doc.querySelectorAll('diagram');
    this._totalPages = diagrams.length || 1;
    if (this._totalPages > 1) { this._setupPageNavigation(); }
    await this._renderPage(this._currentPage);
  }
  \<close>
\<close>

definition renderDiagram ::
  "platform \<Rightarrow> string \<Rightarrow> widget \<Rightarrow> widget \<times> (render_error + unit)" where
  "renderDiagram P xmlContent w =
     (let doc = parseFromString P xmlContent;
          w1 = log_call (ParseXml xmlContent) w
      in case doc_parsererror doc of
           Some message \<Rightarrow> (w1, Inl (InvalidDocument message))
         | None \<Rightarrow>
             (let diagrams = doc_diagrams doc;
                  w2 = w1\<lparr>diagramXml := Some xmlContent,
                          totalPages := (if length diagrams = 0 then 1
                                         else int (length diagrams))\<rparr>;
                  w3 = (if totalPages w2 > 1 then setupPageNavigation w2 else w2)
              in renderPage P (currentPage w3) w3))"

text \<open>
  \<^verbatim>\<open>
  private async _loadDiagram(): Promise<void> {
    try {
      this._container.innerHTML = ... 'Loading diagram...' ...;
      await this._context.ready;
      const content = this._context.model.toString();
      if (!content || content.trim() === '') { throw new Error('Empty diagram file'); }
      await this._renderDiagram(content);
      this._ready.resolve();
    } catch (error) {
      console.error('Error loading Draw.io diagram:', error);
      this._showError(error);
      this._ready.reject(error);
    }
  }
  \<close>
  \<open>content\<close> is the text of the document at the time of the call. The second component
  of the result is what this run settles the promise \<open>ready\<close> with.
\<close>

definition showError :: "render_error \<Rightarrow> widget \<Rightarrow> widget" where
  "showError e w = w\<lparr>errorDiv := Some e\<rparr>"

definition loadDiagram ::
  "platform \<Rightarrow> string \<Rightarrow> widget \<Rightarrow> widget \<times> (render_error + unit)" where
  "loadDiagram P content w =
     (let w0 = w\<lparr>container := LoadingBanner\<rparr>;
          run = (if content = [] \<or> trim content = [] then (w0, Inl EmptyDocument)
                 else renderDiagram P content w0)
      in case snd run of
           Inr _ \<Rightarrow> (fst run, Inr ())
         | Inl e \<Rightarrow> (showError e (fst run), Inl e))"

text \<open>
  What happens to a widget: its document changes (the constructor's first load is such
  an event too), or one of the toolbar buttons is clicked, which has an effect once the
  toolbar is set up.
\<close>

datatype event = ContentChanged string | ClickPrev | ClickNext

definition step :: "platform \<Rightarrow> widget \<Rightarrow> event \<Rightarrow> widget" where
  "step P w e =
     (case e of
        ContentChanged content \<Rightarrow> fst (loadDiagram P content w)
      | ClickPrev \<Rightarrow> (if toolbar w = None then w else prevPage P w)
      | ClickNext \<Rightarrow> (if toolbar w = None then w else nextPage P w))"

text \<open>
  The page element that \<open>_renderPage\<close> selects for an index, if it gets that far, and
  the texts handed to the codec among the calls of a widget.
\<close>

definition selected_page :: "platform \<Rightarrow> widget \<Rightarrow> int \<Rightarrow> diagram option" where
  "selected_page P w pageIndex =
     (case diagramXml w of
        None \<Rightarrow> None
      | Some xml \<Rightarrow>
          if xml = [] then None
          else
            (let diagrams = doc_diagrams (parseFromString P xml)
             in if 0 \<le> pageIndex \<and> pageIndex < int (length diagrams)
                then Some (diagrams ! nat pageIndex) else None))"

definition codec_calls :: "widget \<Rightarrow> string list" where
  "codec_calls w =
     List.map_filter (\<lambda>c. case c of Decompress s \<Rightarrow> Some s | ParseXml _ \<Rightarrow> None) (calls w)"

section \<open>Documents for the examples\<close>

text \<open>
  A host that parses six document texts: two pages with inline models, one such page, a
  bare model, a page whose text is neither a model nor base64, a page whose text is an
  escaped model, and a text that is not well formed. Its codec fails on every input.
\<close>

definition empty_model :: mxGraphModel where
  "empty_model = \<lparr>model_root = Some []\<rparr>"

definition inline_page :: diagram where
  "inline_page = \<lparr>diagram_model = Some empty_model, diagram_textContent = []\<rparr>"

definition text_page :: "string \<Rightarrow> diagram" where
  "text_page s = \<lparr>diagram_model = None, diagram_textContent = s\<rparr>"

definition two_pages_xml :: string where
  "two_pages_xml = ''<mxfile><diagram><mxGraphModel><root/></mxGraphModel></diagram><diagram><mxGraphModel><root/></mxGraphModel></diagram></mxfile>''"

definition one_page_xml :: string where
  "one_page_xml = ''<mxfile><diagram><mxGraphModel><root/></mxGraphModel></diagram></mxfile>''"

definition bare_xml :: string where
  "bare_xml = ''<mxGraphModel><root/></mxGraphModel>''"

definition packed_xml :: string where
  "packed_xml = ''<mxfile><diagram>not base64!</diagram></mxfile>''"

definition escaped_xml :: string where
  "escaped_xml = ''<mxfile><diagram>&lt;mxGraphModel&gt;&lt;root/&gt;&lt;/mxGraphModel&gt;</diagram></mxfile>''"

definition broken_xml :: string where
  "broken_xml = ''<mxfile>''"

definition file_host :: platform where
  "file_host =
     plain_host\<lparr>parseFromString := (\<lambda>s.
       if s = two_pages_xml then
         \<lparr>doc_parsererror = None, doc_diagrams = [inline_page, inline_page],
          doc_model = Some empty_model\<rparr>
       else if s = one_page_xml then
         \<lparr>doc_parsererror = None, doc_diagrams = [inline_page], doc_model = Some empty_model\<rparr>
       else if s = bare_xml then
         \<lparr>doc_parsererror = None, doc_diagrams = [], doc_model = Some empty_model\<rparr>
       else if s = packed_xml then
         \<lparr>doc_parsererror = None, doc_diagrams = [text_page ''not base64!''], doc_model = None\<rparr>
       else if s = escaped_xml then
         \<lparr>doc_parsererror = None, doc_diagrams = [text_page bare_xml], doc_model = None\<rparr>
       else if s = broken_xml then
         \<lparr>doc_parsererror = Some ''unclosed tag'', doc_diagrams = [], doc_model = None\<rparr>
       else no_document)\<rparr>"

text \<open>A widget that holds a document text and nothing else yet.\<close>

definition showing :: "string \<Rightarrow> widget" where
  "showing xml = new_widget\<lparr>diagramXml := Some xml\<rparr>"

text \<open>
  Two runs of a widget: a document of two pages is loaded, the next page is selected,
  and the document then changes to one of a single page, or to a bare model.
\<close>

definition page_lost :: widget where
  "page_lost =
     foldl (step file_host) new_widget
       [ContentChanged two_pages_xml, ClickNext, ContentChanged one_page_xml]"

definition page_stale :: widget where
  "page_stale =
     foldl (step file_host) new_widget
       [ContentChanged two_pages_xml, ClickNext, ContentChanged bare_xml]"

section \<open>Properties of the style parser\<close>

lemma split_on_unfold:
  "split_on sep s =
     takeWhile (\<lambda>c. c \<noteq> sep) s #
       (case dropWhile (\<lambda>c. c \<noteq> sep) s of [] \<Rightarrow> [] | _ # r \<Rightarrow> split_on sep r)"
  by (induction s) simp_all

lemma put_style_entry:
  "put_style result part =
     (case style_entry part of
        None \<Rightarrow> result
      | Some (k, v) \<Rightarrow> if k = ''__proto__'' then result else result(k \<mapsto> v))"
proof -
  let ?ne = "\<lambda>c. c \<noteq> CHR ''=''"
  have sp: "split_on CHR ''='' part =
      takeWhile ?ne part # (case dropWhile ?ne part of [] \<Rightarrow> [] | _ # r \<Rightarrow> split_on CHR ''='' r)"
    by (rule split_on_unfold)
  show ?thesis
  proof (cases "dropWhile ?ne part")
    case Nil
    with sp have "split_on CHR ''='' part = [takeWhile ?ne part]"
      by simp
    then show ?thesis
      by (simp add: put_style_def style_entry_def Let_def Nil)
  next
    case (Cons e r)
    with sp have "split_on CHR ''='' part =
        takeWhile ?ne part # takeWhile ?ne r #
          (case dropWhile ?ne r of [] \<Rightarrow> [] | _ # r' \<Rightarrow> split_on CHR ''='' r')"
      using split_on_unfold [of "CHR ''=''" r] by simp
    then show ?thesis
      by (simp add: put_style_def style_entry_def Let_def Cons)
  qed
qed

lemma foldl_put_style:
  "foldl put_style m parts k =
     (if k = ''__proto__'' then m k
      else (case map_of (rev (List.map_filter style_entry parts)) k of
              None \<Rightarrow> m k
            | Some v \<Rightarrow> Some v))"
proof (induction parts arbitrary: m)
  case Nil
  then show ?case by (simp add: List.map_filter_simps)
next
  case (Cons p ps)
  have step: "foldl put_style m (p # ps) k =
      (if k = ''__proto__'' then put_style m p k
       else (case map_of (rev (List.map_filter style_entry ps)) k of
               None \<Rightarrow> put_style m p k
             | Some v \<Rightarrow> Some v))"
    using Cons.IH [of "put_style m p"] by simp
  show ?case
  proof (cases "style_entry p")
    case None
    then have "put_style m p = m"
      by (simp add: put_style_entry [of m p])
    with None show ?thesis
      unfolding step by (simp add: List.map_filter_simps split: option.splits)
  next
    case (Some kv)
    obtain k' v' where kv: "kv = (k', v')" by (cases kv)
    have "put_style m p = (if k' = ''__proto__'' then m else m(k' \<mapsto> v'))"
      by (simp add: put_style_entry [of m p] Some kv)
    then show ?thesis
      unfolding step
      by (simp add: Some kv List.map_filter_simps map_add_def split: option.splits)
  qed
qed

lemma parseStyle_lookup:
  "parseStyle style k =
     (if k = ''__proto__'' then None else map_of (rev (style_entries style)) k)"
  by (auto simp: parseStyle_def style_entries_def foldl_put_style style_entry_def
        List.map_filter_simps split: option.splits)

text \<open>
  Claim C2, as stated, has the value of a segment with more than one \<open>=\<close> run to the end
  of the segment: \<open>a=b=c\<close> would map \<open>a\<close> to \<open>b=c\<close>. The parser does not do that.
\<close>

theorem parseStyle_first_equals_counterexample:
  "parseStyle ''a=b=c'' ''a'' \<noteq> Some ''b=c''"
  by (simp add: parseStyle_def put_style_def trim_def is_space_def)

text \<open>
  Claim C2, amended. The style parser is a total function. For every style string, the
  value it holds for a key is that of the last segment between semicolons that is an
  entry with this key, where a segment is an entry when it has an \<open>=\<close> and a non-empty
  text before the first one; its key is that text and its value is the text between the
  first \<open>=\<close> and the second one (or the end of the segment), both trimmed of surrounding
  white space. The key \<open>__proto__\<close> is never held. The empty string gives the empty map,
  \<open>a=1;a=2\<close> maps \<open>a\<close> to \<open>2\<close>, and \<open>a=b=c\<close> maps \<open>a\<close> to \<open>b\<close>.
\<close>

theorem parseStyle_last_entry_wins:
  "parseStyle style k =
     (if k = ''__proto__'' then None else map_of (rev (style_entries style)) k)
   \<and> parseStyle [] = Map.empty
   \<and> parseStyle ''a=1;a=2'' ''a'' = Some ''2''
   \<and> parseStyle ''a=b=c'' ''a'' = Some ''b''"
proof -
  have "parseStyle ''a=1;a=2'' ''a'' = Some ''2''"
    by (simp add: parseStyle_def put_style_def trim_def is_space_def)
  moreover have "parseStyle ''a=b=c'' ''a'' = Some ''b''"
    by (simp add: parseStyle_def put_style_def trim_def is_space_def)
  moreover have "parseStyle [] = Map.empty"
    by (simp add: parseStyle_def)
  ultimately show ?thesis
    using parseStyle_lookup [of style k] by simp
qed

section \<open>Properties of the edge generator\<close>

lemma or_zero_id: "or_zero r = r"
  by (simp add: or_zero_def)

lemma connect_closed:
  "connect s t =
     (let dx = fst (center t) - fst (center s);
          dy = snd (center t) - snd (center s)
      in ((fst (center s) + dx * clip_ratio s dx dy,
           snd (center s) + dy * clip_ratio s dx dy),
          (fst (center t) - dx * clip_ratio t dx dy,
           snd (center t) - dy * clip_ratio t dx dy)))"
proof -
  let ?dx = "box_x t + box_width t / 2 - (box_x s + box_width s / 2)"
  let ?dy = "box_y t + box_height t / 2 - (box_y s + box_height s / 2)"
  have len: "(0 < sqrt (?dx * ?dx + ?dy * ?dy)) = (?dx \<noteq> 0 \<or> ?dy \<noteq> 0)"
    by (simp only: real_sqrt_gt_0_iff sum_squares_gt_zero_iff)
  show ?thesis
  proof (cases "?dx = 0 \<and> ?dy = 0")
    case True
    then show ?thesis
      unfolding connect_def Let_def center_def fst_conv snd_conv clip_ratio_def
      by simp
  next
    case False
    then have pos: "0 < sqrt (?dx * ?dx + ?dy * ?dy)"
      unfolding len by simp
    show ?thesis
      unfolding connect_def Let_def center_def fst_conv snd_conv clip_ratio_def
        or_zero_id or_one_def if_P [OF pos]
      using False by simp
  qed
qed

lemma clip_ratio_bounds:
  "0 < box_width b \<Longrightarrow> 0 < box_height b \<Longrightarrow> dx \<noteq> 0 \<or> dy \<noteq> 0 \<Longrightarrow>
     0 < clip_ratio b dx dy \<and> clip_ratio b dx dy \<le> 1 / 2"
  by (auto simp: clip_ratio_def)

lemma edge_ends_boxes:
  assumes "Option.bind geometry geo_sourcePoint = None
           \<or> Option.bind geometry geo_targetPoint = None"
  shows "edge_ends P geometry (Some s) (Some t) = Some (connect s t)"
  using assms by (auto simp: edge_ends_def split: option.splits)

lemma createEdge_path_ends:
  assumes "edge_ends P (cell_geometry cell) source target = Some (p1, p2)"
  shows "\<exists>e. createEdge P cell style source target = Some e
           \<and> path_from (edge_path e) = p1 \<and> path_to (edge_path e) = p2"
  using assms by (cases p1; cases p2) (simp add: createEdge_def Let_def)

lemma connect_example: "connect box_a box_b = ((100, 20), (200, 20))"
  by (simp add: connect_def box_a_def box_b_def Let_def or_one_def or_zero_def)

text \<open>
  Claim C3, as stated, pulls each center by \<open>min(halfWidth/|dx|, halfHeight/|dy|)\<close>
  capped at one half. For two boxes a quarter unit high on one horizontal line, \<open>dy\<close> is
  zero and the source divides half the height by 1 instead: the path starts at 75, not
  at 100, and ends at 225, not at 200.
\<close>

theorem connect_zero_delta_counterexample:
  "connect flat_a flat_b = ((75, 1 / 8), (225, 1 / 8))
   \<and> claimed_connect flat_a flat_b = ((100, 1 / 8), (200, 1 / 8))"
  by (simp add: connect_def claimed_connect_def claimed_ratio_def center_def flat_a_def
        flat_b_def Let_def or_one_def or_zero_def)

text \<open>
  Claim C3, amended. For every edge cell that lacks an explicit source point or an
  explicit target point and whose source and target both resolve to boxes \<open>s\<close> and \<open>t\<close>,
  an edge is rendered and its path runs between the two box centers, each pulled toward
  the other by the clipping ratio of its own box: the smaller of \<open>halfWidth/|dx|\<close> and
  \<open>halfHeight/|dy|\<close>, a zero \<open>dx\<close> or \<open>dy\<close> counting as 1 in the divisor, capped at one
  half, and no pull when the centers coincide. For a box of positive width and height
  and distinct centers the ratio lies in \<open>(0, 1/2]\<close>: the end is off the center and not
  past the midpoint. For the boxes \<open>a = {0, 0, 100, 40}\<close> and \<open>b = {200, 0, 100, 40}\<close>, whose
  centers are \<open>(50, 20)\<close> and \<open>(250, 20)\<close>, the path runs from \<open>(100, 20)\<close> to \<open>(200, 20)\<close>.
\<close>

theorem createEdge_clipped_ends:
  assumes "Option.bind (cell_geometry cell) geo_sourcePoint = None
           \<or> Option.bind (cell_geometry cell) geo_targetPoint = None"
  shows "(\<exists>e. createEdge P cell style (Some s) (Some t) = Some e
             \<and> path_from (edge_path e) =
                 (fst (center s)
                    + (fst (center t) - fst (center s))
                      * clip_ratio s (fst (center t) - fst (center s))
                          (snd (center t) - snd (center s)),
                  snd (center s)
                    + (snd (center t) - snd (center s))
                      * clip_ratio s (fst (center t) - fst (center s))
                          (snd (center t) - snd (center s)))
             \<and> path_to (edge_path e) =
                 (fst (center t)
                    - (fst (center t) - fst (center s))
                      * clip_ratio t (fst (center t) - fst (center s))
                          (snd (center t) - snd (center s)),
                  snd (center t)
                    - (snd (center t) - snd (center s))
                      * clip_ratio t (fst (center t) - fst (center s))
                          (snd (center t) - snd (center s))))
         \<and> (0 < box_width s \<and> 0 < box_height s \<and> center s \<noteq> center t \<longrightarrow>
              0 < clip_ratio s (fst (center t) - fst (center s))
                    (snd (center t) - snd (center s))
              \<and> clip_ratio s (fst (center t) - fst (center s))
                    (snd (center t) - snd (center s)) \<le> 1 / 2)
         \<and> (0 < box_width t \<and> 0 < box_height t \<and> center s \<noteq> center t \<longrightarrow>
              0 < clip_ratio t (fst (center t) - fst (center s))
                    (snd (center t) - snd (center s))
              \<and> clip_ratio t (fst (center t) - fst (center s))
                    (snd (center t) - snd (center s)) \<le> 1 / 2)
         \<and> (\<exists>e. createEdge P cell style (Some box_a) (Some box_b) = Some e
                \<and> path_from (edge_path e) = (100, 20)
                \<and> path_to (edge_path e) = (200, 20))
         \<and> center box_a = (50, 20) \<and> center box_b = (250, 20)"
proof -
  let ?dx = "fst (center t) - fst (center s)"
  let ?dy = "snd (center t) - snd (center s)"
  have ends: "edge_ends P (cell_geometry cell) (Some s) (Some t) =
      Some ((fst (center s) + ?dx * clip_ratio s ?dx ?dy,
             snd (center s) + ?dy * clip_ratio s ?dx ?dy),
            (fst (center t) - ?dx * clip_ratio t ?dx ?dy,
             snd (center t) - ?dy * clip_ratio t ?dx ?dy))"
    using edge_ends_boxes [OF assms, of P s t] connect_closed [of s t]
    by (simp add: Let_def)
  have general: "\<exists>e. createEdge P cell style (Some s) (Some t) = Some e
      \<and> path_from (edge_path e) =
          (fst (center s) + ?dx * clip_ratio s ?dx ?dy,
           snd (center s) + ?dy * clip_ratio s ?dx ?dy)
      \<and> path_to (edge_path e) =
          (fst (center t) - ?dx * clip_ratio t ?dx ?dy,
           snd (center t) - ?dy * clip_ratio t ?dx ?dy)"
    by (rule createEdge_path_ends [OF ends])
  have differ: "?dx \<noteq> 0 \<or> ?dy \<noteq> 0" if "center s \<noteq> center t"
    using that by (cases "center s"; cases "center t") auto
  have bound_s: "0 < clip_ratio s ?dx ?dy \<and> clip_ratio s ?dx ?dy \<le> 1 / 2"
    if "0 < box_width s \<and> 0 < box_height s \<and> center s \<noteq> center t"
    using that clip_ratio_bounds [of s ?dx ?dy] differ by blast
  have bound_t: "0 < clip_ratio t ?dx ?dy \<and> clip_ratio t ?dx ?dy \<le> 1 / 2"
    if "0 < box_width t \<and> 0 < box_height t \<and> center s \<noteq> center t"
    using that clip_ratio_bounds [of t ?dx ?dy] differ by blast
  have "edge_ends P (cell_geometry cell) (Some box_a) (Some box_b) = Some ((100, 20), (200, 20))"
    using edge_ends_boxes [OF assms, of P box_a box_b] connect_example by simp
  then have example: "\<exists>e. createEdge P cell style (Some box_a) (Some box_b) = Some e
      \<and> path_from (edge_path e) = (100, 20) \<and> path_to (edge_path e) = (200, 20)"
    by (rule createEdge_path_ends)
  have centers: "center box_a = (50, 20) \<and> center box_b = (250, 20)"
    by (simp add: center_def box_a_def box_b_def)
  from general bound_s bound_t example centers show ?thesis
    by blast
qed

theorem createEdge_clipped_ends_witness:
  "\<exists>e. createEdge plain_host plain_edge [] (Some box_a) (Some box_b) = Some e
        \<and> path_from (edge_path e) = (100, 20)
        \<and> path_to (edge_path e) = (200, 20)
        \<and> 0 < clip_ratio box_a 200 0
        \<and> clip_ratio box_a 200 0 \<le> 1 / 2"
proof -
  have no_points: "Option.bind (cell_geometry plain_edge) geo_sourcePoint = None
      \<or> Option.bind (cell_geometry plain_edge) geo_targetPoint = None"
    by (simp add: plain_edge_def)
  note inst = createEdge_clipped_ends [OF no_points, of plain_host "[]" box_a box_b]
  have ca: "center box_a = (50, 20)" and cb: "center box_b = (250, 20)"
    by (simp_all add: center_def box_a_def box_b_def)
  have size_a: "0 < box_width box_a \<and> 0 < box_height box_a \<and> center box_a \<noteq> center box_b"
    by (simp add: ca cb) (simp add: box_a_def)
  from inst have "0 < box_width box_a \<and> 0 < box_height box_a \<and> center box_a \<noteq> center box_b \<longrightarrow>
      0 < clip_ratio box_a (fst (center box_b) - fst (center box_a))
            (snd (center box_b) - snd (center box_a))
      \<and> clip_ratio box_a (fst (center box_b) - fst (center box_a))
            (snd (center box_b) - snd (center box_a)) \<le> 1 / 2"
    by blast
  with size_a have ratio: "0 < clip_ratio box_a 200 0 \<and> clip_ratio box_a 200 0 \<le> 1 / 2"
    by (simp add: ca cb)
  from inst have "\<exists>e. createEdge plain_host plain_edge [] (Some box_a) (Some box_b) = Some e
      \<and> path_from (edge_path e) = (100, 20) \<and> path_to (edge_path e) = (200, 20)"
    by blast
  with ratio show ?thesis
    by blast
qed

section \<open>Properties of the shape generator\<close>

lemma str_includes_sublist: "str_includes s sub \<longleftrightarrow> sublist sub s"
  by (induction s) (simp_all add: sublist_Cons_right)

lemma sublist_trim: "sublist (trim s) s"
proof -
  have "sublist (dropWhile is_space (rev (dropWhile is_space s))) (rev (dropWhile is_space s))"
    by simp
  then have "sublist (trim s) (dropWhile is_space s)"
    unfolding trim_def by (simp add: sublist_rev_left)
  moreover have "sublist (dropWhile is_space s) s"
    by simp
  ultimately show ?thesis
    by (rule sublist_order.order_trans)
qed

lemma split_on_sublist: "f \<in> set (split_on sep s) \<Longrightarrow> sublist f s"
proof (induction s arbitrary: f rule: length_induct)
  case (1 s)
  let ?ne = "\<lambda>c. c \<noteq> sep"
  have "f = takeWhile ?ne s \<or>
      (\<exists>e r. dropWhile ?ne s = e # r \<and> f \<in> set (split_on sep r))"
  proof (cases "dropWhile ?ne s")
    case Nil
    with "1.prems" show ?thesis
      by (subst (asm) split_on_unfold) simp
  next
    case (Cons e r)
    with "1.prems" show ?thesis
      by (subst (asm) split_on_unfold) simp
  qed
  then show ?case
  proof
    assume "f = takeWhile ?ne s"
    then show ?thesis by simp
  next
    assume "\<exists>e r. dropWhile ?ne s = e # r \<and> f \<in> set (split_on sep r)"
    then obtain e r where d: "dropWhile ?ne s = e # r" and f: "f \<in> set (split_on sep r)"
      by blast
    have "r = tl (dropWhile ?ne s)"
      by (simp add: d)
    then have sub: "sublist r s"
      using sublist_order.order_trans [OF sublist_tl sublist_dropWhile] by metis
    then have "length r < length s"
      using d length_dropWhile_le [of ?ne s] by simp
    with "1.IH" f have "sublist f r"
      by blast
    with sub show ?thesis
      by (rule sublist_order.order_trans [rotated])
  qed
qed

lemma style_entry_sublist:
  assumes "style_entry part = Some (k, v)"
  shows "sublist v part"
proof -
  let ?ne = "\<lambda>c. c \<noteq> CHR ''=''"
  from assms have v: "v = trim (takeWhile ?ne (tl (dropWhile ?ne part)))"
    by (auto simp: style_entry_def Let_def split: if_splits)
  have "sublist (takeWhile ?ne (tl (dropWhile ?ne part))) (tl (dropWhile ?ne part))"
    by simp
  also have "sublist (tl (dropWhile ?ne part)) (dropWhile ?ne part)"
    by simp
  also have "sublist (dropWhile ?ne part) part"
    by simp
  finally have "sublist (takeWhile ?ne (tl (dropWhile ?ne part))) part" .
  with sublist_trim [of "takeWhile ?ne (tl (dropWhile ?ne part))"] show ?thesis
    unfolding v by (rule sublist_order.order_trans)
qed

text \<open>Every value that the parser holds occurs in the style string.\<close>

lemma parseStyle_value_included:
  assumes "parseStyle style k = Some v"
  shows "str_includes style v"
proof -
  from assms have "map_of (rev (style_entries style)) k = Some v"
    by (simp add: parseStyle_lookup split: if_splits)
  then have "(k, v) \<in> set (style_entries style)"
    using map_of_SomeD by fastforce
  then obtain part where p: "part \<in> set (split_on CHR '';'' style)"
    and e: "style_entry part = Some (k, v)"
    by (auto simp: style_entries_def List.map_filter_def)
  from style_entry_sublist [OF e] split_on_sublist [OF p] have "sublist v style"
    by (rule sublist_order.order_trans)
  then show ?thesis
    by (simp add: str_includes_sublist)
qed

lemma shape_key_included:
  assumes "or_default (parseStyle style ''shape'') [] = k" and "k \<noteq> []"
  shows "str_includes style k"
proof -
  from assms have "parseStyle style ''shape'' = Some k"
    by (auto simp: or_default_def split: option.splits if_splits)
  then show ?thesis
    by (rule parseStyle_value_included)
qed

text \<open>
  Claim C4, as stated, has the substring match only when the \<open>shape\<close> key is absent. The
  style \<open>shape=triangle;perimeter=ellipsePerimeter\<close> has the key, with the value
  \<open>triangle\<close>, and the vertex is drawn as an ellipse: the substring test for \<open>ellipse\<close>
  comes first and does not look at the key.
\<close>

theorem createShape_shape_key_counterexample:
  "parseStyle ''shape=triangle;perimeter=ellipsePerimeter'' ''shape'' = Some ''triangle''
   \<and> shape_element
        (createShape plain_host 0 0 100 40 ''shape=triangle;perimeter=ellipsePerimeter'' [])
      = Ellipse 50 20 50 20"
proof -
  have "parseStyle ''shape=triangle;perimeter=ellipsePerimeter'' ''shape'' = Some ''triangle''"
    by (simp add: parseStyle_def put_style_def trim_def is_space_def)
  moreover have "shape_element
      (createShape plain_host 0 0 100 40 ''shape=triangle;perimeter=ellipsePerimeter'' [])
      = Ellipse 50 20 50 20"
    by (simp add: createShape_def Let_def)
  ultimately show ?thesis
    by simp
qed

text \<open>
  Claim C4, amended. For every vertex, the shape drawn is that of the first keyword among
  \<open>ellipse\<close>, \<open>rhombus\<close>, \<open>hexagon\<close>, \<open>triangle\<close>, \<open>cylinder\<close>, in this fixed order, that
  occurs as a substring of the entire style string, whether the \<open>shape\<close> key is present
  or not (a \<open>shape\<close> key equal to a keyword makes that keyword occur); when none occurs,
  a rectangle is drawn, rounded if and only if the \<open>rounded\<close> style key equals \<open>1\<close>.
\<close>

theorem createShape_first_keyword:
  "shape_element (createShape P x y width height style label) =
     (case find (str_includes style) shape_keywords of
        Some k \<Rightarrow> keyword_element k x y width height
      | None \<Rightarrow>
          Rect x y width height
            (if parseStyle style ''rounded'' = Some ''1'' then Some (5, 5) else None))"
proof -
  have inc: "(or_default (parseStyle style ''shape'') [] = k \<or> str_includes style k)
      = str_includes style k" if "k \<noteq> []" for k
    using shape_key_included [of style k] that by blast
  show ?thesis
    unfolding createShape_def Let_def
    by (simp add: inc shape_keywords_def keyword_element_def)
qed

section \<open>Properties of the labels\<close>






section \<open>Properties of the layout\<close>

lemma collect_vertex_entry:
  "collect_vertex P vertices cell =
     (case vertex_entries P [cell] of [] \<Rightarrow> vertices | (k, b) # _ \<Rightarrow> vertices(k \<mapsto> b))"
  by (simp add: collect_vertex_def vertex_entries_def List.map_filter_simps Let_def
        split: option.splits)

lemma vertex_entries_Cons:
  "vertex_entries P (cell # cells) = vertex_entries P [cell] @ vertex_entries P cells"
  by (simp add: vertex_entries_def List.map_filter_simps split: option.splits)

lemma vertex_entries_single: "length (vertex_entries P [cell]) \<le> 1"
  by (simp add: vertex_entries_def List.map_filter_simps split: option.splits)

lemma foldl_collect_vertex:
  "foldl (collect_vertex P) vertices cells =
     vertices ++ map_of (rev (vertex_entries P cells))"
proof (induction cells arbitrary: vertices)
  case Nil
  then show ?case by (simp add: vertex_entries_def List.map_filter_simps)
next
  case (Cons cell cells)
  show ?case
  proof (cases "vertex_entries P [cell]")
    case Nil
    then have "collect_vertex P vertices cell = vertices"
      by (simp add: collect_vertex_entry)
    with Nil show ?thesis
      by (simp add: Cons.IH vertex_entries_Cons [of P cell cells])
  next
    case (Cons kb rest)
    obtain k b where kb: "kb = (k, b)" by (cases kb)
    from Cons vertex_entries_single [of P cell] have rest: "rest = []"
      by simp
    have cv: "collect_vertex P vertices cell = vertices(k \<mapsto> b)"
      by (simp add: collect_vertex_entry Cons kb)
    have "foldl (collect_vertex P) vertices (cell # cells) =
        foldl (collect_vertex P) (vertices(k \<mapsto> b)) cells"
      by (simp only: foldl_Cons cv)
    also have "\<dots> = vertices(k \<mapsto> b) ++ map_of (rev (vertex_entries P cells))"
      by (rule Cons.IH)
    also have "\<dots> = vertices ++ map_of (rev (vertex_entries P (cell # cells)))"
      by (rule ext)
         (simp add: vertex_entries_Cons [of P cell cells] Cons kb rest map_add_def
            split: option.splits)
    finally show ?thesis .
  qed
qed

lemma fst_render_cell:
  "fst (render_cell P vertices state cell) =
     (case vertex_entries P [cell] of [] \<Rightarrow> fst state | (k, b) # _ \<Rightarrow> grow (fst state) b)"
  by (simp add: render_cell_def vertex_entries_def List.map_filter_simps Let_def
        split: option.splits)

lemma fst_foldl_render_cell:
  "fst (foldl (render_cell P vertices) state cells) =
     foldl grow (fst state) (map snd (vertex_entries P cells))"
proof (induction cells arbitrary: state)
  case Nil
  then show ?case by (simp add: vertex_entries_def List.map_filter_simps)
next
  case (Cons cell cells)
  show ?case
  proof (cases "vertex_entries P [cell]")
    case Nil
    then show ?thesis
      by (simp add: Cons.IH vertex_entries_Cons [of P cell cells] fst_render_cell)
  next
    case (Cons kb rest)
    obtain k b where kb: "kb = (k, b)" by (cases kb)
    from Cons vertex_entries_single [of P cell] have rest: "rest = []"
      by simp
    show ?thesis
      by (simp add: Cons.IH vertex_entries_Cons [of P cell cells] fst_render_cell Cons kb rest)
  qed
qed

lemma foldl_grow_Some:
  "foldl grow (Some m) bs =
     Some \<lparr>minX = Min (insert (minX m) (box_x ` set bs)),
           minY = Min (insert (minY m) (box_y ` set bs)),
           maxX = Max (insert (maxX m) ((\<lambda>b. box_x b + box_width b) ` set bs)),
           maxY = Max (insert (maxY m) ((\<lambda>b. box_y b + box_height b) ` set bs))\<rparr>"
proof (induction bs arbitrary: m)
  case Nil
  then show ?case by simp
next
  case (Cons b bs)
  have mn: "Min (insert (min u v) A) = Min (insert u (insert v A))" if "finite A"
    for u v :: real and A
    using that by (cases "A = {}") (simp_all add: min.assoc)
  have mx: "Max (insert (max u v) A) = Max (insert u (insert v A))" if "finite A"
    for u v :: real and A
    using that by (cases "A = {}") (simp_all add: max.assoc)
  have g: "grow (Some m) b =
      Some \<lparr>minX = min (minX m) (box_x b), minY = min (minY m) (box_y b),
            maxX = max (maxX m) (box_x b + box_width b),
            maxY = max (maxY m) (box_y b + box_height b)\<rparr>"
    by (simp add: grow_def)
  have "foldl grow (Some m) (b # bs) = foldl grow (grow (Some m) b) bs"
    by simp
  also have "\<dots> =
      Some \<lparr>minX = Min (insert (min (minX m) (box_x b)) (box_x ` set bs)),
            minY = Min (insert (min (minY m) (box_y b)) (box_y ` set bs)),
            maxX = Max (insert (max (maxX m) (box_x b + box_width b))
                      ((\<lambda>b. box_x b + box_width b) ` set bs)),
            maxY = Max (insert (max (maxY m) (box_y b + box_height b))
                      ((\<lambda>b. box_y b + box_height b) ` set bs))\<rparr>"
    unfolding g by (simp only: Cons.IH bounds.simps)
  also have "\<dots> =
      Some \<lparr>minX = Min (insert (minX m) (box_x ` set (b # bs))),
            minY = Min (insert (minY m) (box_y ` set (b # bs))),
            maxX = Max (insert (maxX m) ((\<lambda>b. box_x b + box_width b) ` set (b # bs))),
            maxY = Max (insert (maxY m) ((\<lambda>b. box_y b + box_height b) ` set (b # bs)))\<rparr>"
    by (simp only: mn mx finite_imageI finite_set list.set image_insert)
  finally show ?case .
qed

lemma foldl_grow_None:
  "foldl grow None bs = (if bs = [] then None else Some (bounding bs))"
proof (cases bs)
  case Nil
  then show ?thesis by simp
next
  case (Cons b bs')
  have g: "grow None b =
      Some \<lparr>minX = box_x b, minY = box_y b,
            maxX = box_x b + box_width b, maxY = box_y b + box_height b\<rparr>"
    by (simp add: grow_def)
  have "foldl grow None (b # bs') = foldl grow (grow None b) bs'"
    by simp
  then show ?thesis
    unfolding g Cons by (simp add: foldl_grow_Some bounding_def)
qed

lemma vertex_box_defaults:
  assumes "parseFloat P ''0'' = 0" and "parseFloat P ''100'' = 100"
    and "parseFloat P ''40'' = 40"
  shows "(geo_x g = None \<or> geo_x g = Some [] \<longrightarrow> box_x (vertex_box P g) = 0)
       \<and> (geo_y g = None \<or> geo_y g = Some [] \<longrightarrow> box_y (vertex_box P g) = 0)
       \<and> (geo_width g = None \<or> geo_width g = Some [] \<longrightarrow> box_width (vertex_box P g) = 100)
       \<and> (geo_height g = None \<or> geo_height g = Some [] \<longrightarrow> box_height (vertex_box P g) = 40)
       \<and> (\<forall>s. geo_x g = Some s \<and> s \<noteq> [] \<longrightarrow> box_x (vertex_box P g) = parseFloat P s)
       \<and> (\<forall>s. geo_y g = Some s \<and> s \<noteq> [] \<longrightarrow> box_y (vertex_box P g) = parseFloat P s)
       \<and> (\<forall>s. geo_width g = Some s \<and> s \<noteq> [] \<longrightarrow> box_width (vertex_box P g) = parseFloat P s)
       \<and> (\<forall>s. geo_height g = Some s \<and> s \<noteq> [] \<longrightarrow> box_height (vertex_box P g) = parseFloat P s)"
  using assms by (auto simp: vertex_box_def or_default_def)

lemma mxGraphToSvg_rootless:
  assumes "model_root model = None"
  shows "mxGraphToSvg P model = \<lparr>svg_viewBox = None, svg_content = EmptyDiagram\<rparr>"
  using assms by (simp add: mxGraphToSvg_def)

lemma mxGraphToSvg_rooted:
  assumes root: "model_root model = Some cells"
  shows "svg_viewBox (mxGraphToSvg P model) =
      Some (if vertex_entries P cells = [] then (0, 0, 400, 300)
            else (minX (bounding (map snd (vertex_entries P cells))) - 30,
                  minY (bounding (map snd (vertex_entries P cells))) - 30,
                  (maxX (bounding (map snd (vertex_entries P cells))) + 30)
                    - (minX (bounding (map snd (vertex_entries P cells))) - 30),
                  (maxY (bounding (map snd (vertex_entries P cells))) + 30)
                    - (minY (bounding (map snd (vertex_entries P cells))) - 30)))"
proof -
  let ?state = "foldl (render_cell P (foldl (collect_vertex P) Map.empty cells)) (None, []) cells"
  have st: "fst ?state =
      (if vertex_entries P cells = [] then None
       else Some (bounding (map snd (vertex_entries P cells))))"
    by (simp add: fst_foldl_render_cell foldl_grow_None)
  have "svg_viewBox (mxGraphToSvg P model) =
      Some (case fst ?state of
              Some m \<Rightarrow> (minX m - 30, minY m - 30, maxX m - minX m + 2 * 30,
                         maxY m - minY m + 2 * 30)
            | None \<Rightarrow> (0, 0, 400, 300))"
    by (simp add: mxGraphToSvg_def root Let_def)
  then show ?thesis
    unfolding st by simp
qed

text \<open>
  Claim C5, as stated, gives every model without a vertex the viewport \<open>(0, 0, 400, 300)\<close>.
  A model element with no \<open>root\<close> element has no vertex, and the source returns early for
  it, with the text \<open>Empty diagram\<close> and no \<open>viewBox\<close> at all.
\<close>

theorem mxGraphToSvg_rootless_counterexample:
  "svg_viewBox (mxGraphToSvg plain_host \<lparr>model_root = None\<rparr>) \<noteq> Some (0, 0, 400, 300)"
  by (simp add: mxGraphToSvg_def)

text \<open>
  Claim C5, amended. The numbers of this embedding are the finite ones: the statement is
  about models all of whose geometry attributes \<open>parseFloat\<close> reads as finite numbers,
  and about a \<open>parseFloat\<close> that reads the three default texts as 0, 100 and 40.
  A model without a root element publishes no viewport, and its only content is the text
  \<open>Empty diagram\<close>. For a model with a root element: the first pass records, under its
  id, the box of every cell flagged as a vertex that has a geometry (a later cell with
  the same id replaces an earlier one); the box has x and y 0, width 100 and height 40
  where the attribute is absent or empty, and the parsed attribute where it is present
  and not empty; the viewport is \<open>(0, 0, 400, 300)\<close> when no cell is such a vertex, and
  otherwise the rectangle from the least x and y to the greatest \<open>x + width\<close> and
  \<open>y + height\<close> over all these boxes, widened by exactly 30 on each of the four sides.
\<close>

theorem mxGraphToSvg_viewport:
  assumes zero: "parseFloat P ''0'' = 0"
    and hundred: "parseFloat P ''100'' = 100"
    and forty: "parseFloat P ''40'' = 40"
  shows "(model_root model = None \<longrightarrow>
            mxGraphToSvg P model = \<lparr>svg_viewBox = None, svg_content = EmptyDiagram\<rparr>)
       \<and> (\<forall>cells. model_root model = Some cells \<longrightarrow>
            foldl (collect_vertex P) Map.empty cells = map_of (rev (vertex_entries P cells))
            \<and> svg_viewBox (mxGraphToSvg P model) =
                Some (if vertex_entries P cells = [] then (0, 0, 400, 300)
                      else (minX (bounding (map snd (vertex_entries P cells))) - 30,
                            minY (bounding (map snd (vertex_entries P cells))) - 30,
                            (maxX (bounding (map snd (vertex_entries P cells))) + 30)
                              - (minX (bounding (map snd (vertex_entries P cells))) - 30),
                            (maxY (bounding (map snd (vertex_entries P cells))) + 30)
                              - (minY (bounding (map snd (vertex_entries P cells))) - 30))))
       \<and> (\<forall>g. (geo_x g = None \<or> geo_x g = Some [] \<longrightarrow> box_x (vertex_box P g) = 0)
             \<and> (geo_y g = None \<or> geo_y g = Some [] \<longrightarrow> box_y (vertex_box P g) = 0)
             \<and> (geo_width g = None \<or> geo_width g = Some [] \<longrightarrow>
                    box_width (vertex_box P g) = 100)
             \<and> (geo_height g = None \<or> geo_height g = Some [] \<longrightarrow>
                    box_height (vertex_box P g) = 40)
             \<and> (\<forall>s. geo_x g = Some s \<and> s \<noteq> [] \<longrightarrow> box_x (vertex_box P g) = parseFloat P s)
             \<and> (\<forall>s. geo_y g = Some s \<and> s \<noteq> [] \<longrightarrow> box_y (vertex_box P g) = parseFloat P s)
             \<and> (\<forall>s. geo_width g = Some s \<and> s \<noteq> [] \<longrightarrow>
                    box_width (vertex_box P g) = parseFloat P s)
             \<and> (\<forall>s. geo_height g = Some s \<and> s \<noteq> [] \<longrightarrow>
                    box_height (vertex_box P g) = parseFloat P s))"
proof (intro conjI allI impI)
  assume "model_root model = None"
  then show "mxGraphToSvg P model = \<lparr>svg_viewBox = None, svg_content = EmptyDiagram\<rparr>"
    by (rule mxGraphToSvg_rootless)
next
  fix cells
  assume root: "model_root model = Some cells"
  show "foldl (collect_vertex P) Map.empty cells = map_of (rev (vertex_entries P cells))"
    by (simp add: foldl_collect_vertex)
  show "svg_viewBox (mxGraphToSvg P model) =
      Some (if vertex_entries P cells = [] then (0, 0, 400, 300)
            else (minX (bounding (map snd (vertex_entries P cells))) - 30,
                  minY (bounding (map snd (vertex_entries P cells))) - 30,
                  (maxX (bounding (map snd (vertex_entries P cells))) + 30)
                    - (minX (bounding (map snd (vertex_entries P cells))) - 30),
                  (maxY (bounding (map snd (vertex_entries P cells))) + 30)
                    - (minY (bounding (map snd (vertex_entries P cells))) - 30)))"
    by (rule mxGraphToSvg_rooted [OF root])
next
  fix g
  note d = vertex_box_defaults [OF zero hundred forty, of g]
  show "geo_x g = None \<or> geo_x g = Some [] \<Longrightarrow> box_x (vertex_box P g) = 0"
    using d by blast
  show "geo_y g = None \<or> geo_y g = Some [] \<Longrightarrow> box_y (vertex_box P g) = 0"
    using d by blast
  show "geo_width g = None \<or> geo_width g = Some [] \<Longrightarrow> box_width (vertex_box P g) = 100"
    using d by blast
  show "geo_height g = None \<or> geo_height g = Some [] \<Longrightarrow> box_height (vertex_box P g) = 40"
    using d by blast
  show "geo_x g = Some s \<and> s \<noteq> [] \<Longrightarrow> box_x (vertex_box P g) = parseFloat P s" for s
    using d by blast
  show "geo_y g = Some s \<and> s \<noteq> [] \<Longrightarrow> box_y (vertex_box P g) = parseFloat P s" for s
    using d by blast
  show "geo_width g = Some s \<and> s \<noteq> [] \<Longrightarrow> box_width (vertex_box P g) = parseFloat P s" for s
    using d by blast
  show "geo_height g = Some s \<and> s \<noteq> [] \<Longrightarrow> box_height (vertex_box P g) = parseFloat P s" for s
    using d by blast
qed

lemma digits_real_examples:
  "digits_real ''0'' = 0" "digits_real ''100'' = 100" "digits_real ''40'' = 40"
  "digits_real ''200'' = 200" "digits_real ''12'' = 12"
  by (simp_all add: digits_real_def)

theorem mxGraphToSvg_viewport_witness:
  "svg_viewBox (mxGraphToSvg plain_host two_boxes) = Some (- 30, - 30, 360, 100)
   \<and> foldl (collect_vertex plain_host) Map.empty
        [vertex_cell ''a'' None, vertex_cell ''b'' (Some ''200''), plain_edge] ''b''
      = Some box_b
   \<and> mxGraphToSvg plain_host \<lparr>model_root = None\<rparr>
      = \<lparr>svg_viewBox = None, svg_content = EmptyDiagram\<rparr>
   \<and> svg_viewBox (mxGraphToSvg plain_host \<lparr>model_root = Some [plain_edge]\<rparr>)
      = Some (0, 0, 400, 300)
   \<and> box_width
        (vertex_box plain_host
           \<lparr>geo_x = Some ''200'', geo_y = None, geo_width = Some [], geo_height = None,
            geo_sourcePoint = None, geo_targetPoint = None, geo_points = []\<rparr>)
      = 100"
proof -
  let ?cells = "[vertex_cell ''a'' None, vertex_cell ''b'' (Some ''200''), plain_edge]"
  let ?g = "\<lparr>geo_x = Some ''200'', geo_y = None, geo_width = Some [], geo_height = None,
      geo_sourcePoint = None, geo_targetPoint = None, geo_points = []\<rparr>"
  have root: "model_root two_boxes = Some ?cells"
    by (simp add: two_boxes_def)
  have pf: "parseFloat plain_host ''0'' = 0" "parseFloat plain_host ''100'' = 100"
    "parseFloat plain_host ''40'' = 40" "parseFloat plain_host ''200'' = 200"
    by (simp_all add: plain_host_def digits_real_examples)
  have entries: "vertex_entries plain_host ?cells = [(''a'', box_a), (''b'', box_b)]"
    by (simp add: vertex_entries_def List.map_filter_simps vertex_cell_def plain_edge_def
          vertex_box_def or_default_def pf box_a_def box_b_def)
  have none: "vertex_entries plain_host [plain_edge] = []"
    by (simp add: vertex_entries_def List.map_filter_simps plain_edge_def)
  have b: "bounding [box_a, box_b] = \<lparr>minX = 0, minY = 0, maxX = 300, maxY = 40\<rparr>"
    by (simp add: bounding_def box_a_def box_b_def)
  note two = mxGraphToSvg_viewport [OF pf(1) pf(2) pf(3), of two_boxes,
      THEN conjunct2, THEN conjunct1, rule_format, OF root]
  note rootless = mxGraphToSvg_viewport [OF pf(1) pf(2) pf(3), of "\<lparr>model_root = None\<rparr>",
      THEN conjunct1, rule_format]
  note edge_only = mxGraphToSvg_viewport [OF pf(1) pf(2) pf(3),
      of "\<lparr>model_root = Some [plain_edge]\<rparr>",
      THEN conjunct2, THEN conjunct1, rule_format, of "[plain_edge]"]
  note boxes = mxGraphToSvg_viewport [OF pf(1) pf(2) pf(3), of two_boxes,
      THEN conjunct2, THEN conjunct2, rule_format, of ?g]
  from two have "svg_viewBox (mxGraphToSvg plain_host two_boxes) = Some (- 30, - 30, 360, 100)"
    by (simp add: entries b)
  moreover from two have "foldl (collect_vertex plain_host) Map.empty ?cells ''b'' = Some box_b"
    by (simp add: entries)
  moreover from rootless have "mxGraphToSvg plain_host \<lparr>model_root = None\<rparr>
      = \<lparr>svg_viewBox = None, svg_content = EmptyDiagram\<rparr>"
    by simp
  moreover from edge_only have
    "svg_viewBox (mxGraphToSvg plain_host \<lparr>model_root = Some [plain_edge]\<rparr>)
      = Some (0, 0, 400, 300)"
    by (simp add: none)
  moreover from boxes have "box_width (vertex_box plain_host ?g) = 100"
    by simp
  ultimately show ?thesis
    by simp
qed

section \<open>Properties of the page pipeline\<close>

lemma log_call_frame:
  "currentPage (log_call c w) = currentPage w"
  "totalPages (log_call c w) = totalPages w"
  "toolbar (log_call c w) = toolbar w"
  "diagramXml (log_call c w) = diagramXml w"
  "errorDiv (log_call c w) = errorDiv w"
  "container (log_call c w) = container w"
  "calls (log_call c w) = calls w @ [c]"
  by (simp_all add: log_call_def)

lemma renderMxGraphModel_frame:
  "currentPage (renderMxGraphModel P m w) = currentPage w"
  "totalPages (renderMxGraphModel P m w) = totalPages w"
  "toolbar (renderMxGraphModel P m w) = toolbar w"
  "diagramXml (renderMxGraphModel P m w) = diagramXml w"
  "errorDiv (renderMxGraphModel P m w) = errorDiv w"
  "container (renderMxGraphModel P m w) = Drawn (mxGraphToSvg P m)"
  "calls (renderMxGraphModel P m w) = calls w"
  by (simp_all add: renderMxGraphModel_def)

lemma codec_calls_simps:
  "codec_calls (log_call (ParseXml s) w) = codec_calls w"
  "codec_calls (log_call (Decompress s) w) = codec_calls w @ [s]"
  "codec_calls (renderMxGraphModel P m w) = codec_calls w"
  by (simp_all add: codec_calls_def List.map_filter_def renderMxGraphModel_def log_call_def)

lemma renderContent_result:
  "snd (renderContent P c w) =
     (if str_includes c ''<mxGraphModel'' then
        (case doc_model (parseFromString P c) of
           Some m \<Rightarrow> Inr ()
         | None \<Rightarrow> Inl UnparsableContent)
      else Inl UnparsableContent)"
  by (simp add: renderContent_def Let_def split: option.splits)

lemma renderContent_container:
  "container (fst (renderContent P c w)) =
     (if str_includes c ''<mxGraphModel'' then
        (case doc_model (parseFromString P c) of
           Some m \<Rightarrow> Drawn (mxGraphToSvg P m)
         | None \<Rightarrow> container w)
      else container w)"
  by (simp add: renderContent_def Let_def renderMxGraphModel_frame log_call_frame
        split: option.splits)

lemma renderContent_frame:
  "currentPage (fst (renderContent P c w)) = currentPage w"
  "totalPages (fst (renderContent P c w)) = totalPages w"
  "toolbar (fst (renderContent P c w)) = toolbar w"
  "diagramXml (fst (renderContent P c w)) = diagramXml w"
  "errorDiv (fst (renderContent P c w)) = errorDiv w"
  "codec_calls (fst (renderContent P c w)) = codec_calls w"
  by (simp_all add: renderContent_def Let_def log_call_frame renderMxGraphModel_frame
        codec_calls_simps split: option.splits)

lemma renderPage_no_document:
  assumes "diagramXml w = None \<or> diagramXml w = Some []"
  shows "renderPage P i w = (w, Inr ())"
  using assms by (auto simp: renderPage_def)

text \<open>The four ways through the method once the document text is there.\<close>

lemma renderPage_no_pages:
  assumes "diagramXml w = Some xml" and "xml \<noteq> []"
    and "doc_diagrams (parseFromString P xml) = []"
  shows "renderPage P i w =
     (case doc_model (parseFromString P xml) of
        Some m \<Rightarrow> (renderMxGraphModel P m (log_call (ParseXml xml) w), Inr ())
      | None \<Rightarrow> (log_call (ParseXml xml) w, Inl NoDiagramContent))"
  using assms by (simp add: renderPage_def Let_def)

lemma renderPage_not_found:
  assumes "diagramXml w = Some xml" and "xml \<noteq> []"
    and "doc_diagrams (parseFromString P xml) \<noteq> []"
    and "i < 0 \<or> int (length (doc_diagrams (parseFromString P xml))) \<le> i"
  shows "renderPage P i w = (log_call (ParseXml xml) w, Inl (PageNotFound (i + 1)))"
  using assms by (auto simp: renderPage_def Let_def)

lemma selected_pageD:
  assumes "selected_page P w i = Some page"
  obtains xml where "diagramXml w = Some xml" and "xml \<noteq> []"
    and "0 \<le> i" and "i < int (length (doc_diagrams (parseFromString P xml)))"
    and "doc_diagrams (parseFromString P xml) ! nat i = page"
  using assms
  by (auto simp: selected_page_def Let_def split: option.splits if_splits)

lemma renderPage_selected:
  assumes "selected_page P w i = Some page" and "diagramXml w = Some xml"
  shows "renderPage P i w =
     (let w1 = log_call (ParseXml xml) w
      in case diagram_model page of
           Some m \<Rightarrow> (renderMxGraphModel P m w1, Inr ())
         | None \<Rightarrow>
             if diagram_textContent page \<noteq> []
                \<and> \<not> str_includes (diagram_textContent page) ''<mxGraphModel''
             then
               (case decompressDiagram P (diagram_textContent page) of
                  Inr decoded \<Rightarrow>
                    renderContent P decoded
                      (log_call (Decompress (diagram_textContent page)) w1)
                | Inl e \<Rightarrow>
                    renderContent P (diagram_textContent page)
                      (log_call (Decompress (diagram_textContent page)) w1))
             else renderContent P (diagram_textContent page) w1)"
proof -
  from assms(1) obtain xml' where x: "diagramXml w = Some xml'" "xml' \<noteq> []"
    and i: "0 \<le> i" "i < int (length (doc_diagrams (parseFromString P xml')))"
    and p: "doc_diagrams (parseFromString P xml') ! nat i = page"
    by (rule selected_pageD)
  from x assms(2) have xml: "xml' = xml" by simp
  from i have ne: "doc_diagrams (parseFromString P xml) \<noteq> []"
    unfolding xml by auto
  show ?thesis
    using x i p ne unfolding xml
    by (simp add: renderPage_def Let_def split: option.splits)
qed

lemma selected_page_None:
  assumes "selected_page P w i = None"
  shows "codec_calls (fst (renderPage P i w)) = codec_calls w"
proof (cases "diagramXml w = None \<or> diagramXml w = Some []")
  case True
  then show ?thesis by (simp add: renderPage_no_document)
next
  case False
  then obtain xml where x: "diagramXml w = Some xml" "xml \<noteq> []"
    by (cases "diagramXml w") auto
  show ?thesis
  proof (cases "doc_diagrams (parseFromString P xml) = []")
    case True
    then show ?thesis
      by (simp add: renderPage_no_pages [OF x] codec_calls_simps split: option.splits)
  next
    case False
    with assms x have "i < 0 \<or> int (length (doc_diagrams (parseFromString P xml))) \<le> i"
      by (auto simp: selected_page_def Let_def split: if_splits)
    with False show ?thesis
      by (simp add: renderPage_not_found [OF x] codec_calls_simps)
  qed
qed

lemma renderPage_codec_calls:
  "codec_calls (fst (renderPage P i w)) =
     codec_calls w @
       (case selected_page P w i of
          None \<Rightarrow> []
        | Some page \<Rightarrow>
            if diagram_model page = None \<and> diagram_textContent page \<noteq> []
               \<and> \<not> str_includes (diagram_textContent page) ''<mxGraphModel''
            then [diagram_textContent page] else [])"
proof (cases "selected_page P w i")
  case None
  then show ?thesis by (simp add: selected_page_None)
next
  case (Some page)
  then obtain xml where x: "diagramXml w = Some xml"
    by (rule selected_pageD)
  show ?thesis
    unfolding Some renderPage_selected [OF Some x] Let_def
    by (simp add: codec_calls_simps renderContent_frame split: option.splits sum.splits)
qed

lemma decompressDiagram_error:
  "decompressDiagram P c = Inl e \<Longrightarrow> e = DecodeError"
  by (auto simp: decompressDiagram_def Let_def split: option.splits)

text \<open>
  Claim C7. For every selected page without an inline model on whose text the codec fails
  (the failure of any of its steps is the one \<open>DecodeError\<close>), the page content stays
  the original text and goes on to the model extraction: the result is that of the
  extraction on the original text, a rendered page or \<open>UnparsableContent\<close>, never the
  \<open>DecodeError\<close>. Where the codec was indeed run (the text is not empty and lacks
  \<open><mxGraphModel\<close>), the extraction finds nothing and the page fails with
  \<open>UnparsableContent\<close>, the container left as it was.
\<close>

theorem renderPage_decode_failure:
  assumes "selected_page P w i = Some page" and "diagram_model page = None"
    and "decompressDiagram P (diagram_textContent page) = Inl e"
  shows "e = DecodeError
       \<and> snd (renderPage P i w) =
           (if str_includes (diagram_textContent page) ''<mxGraphModel'' then
              (case doc_model (parseFromString P (diagram_textContent page)) of
                 Some m \<Rightarrow> Inr ()
               | None \<Rightarrow> Inl UnparsableContent)
            else Inl UnparsableContent)
       \<and> snd (renderPage P i w) \<noteq> Inl DecodeError
       \<and> (diagram_textContent page \<noteq> []
            \<and> \<not> str_includes (diagram_textContent page) ''<mxGraphModel'' \<longrightarrow>
              snd (renderPage P i w) = Inl UnparsableContent
              \<and> codec_calls (fst (renderPage P i w)) = codec_calls w @ [diagram_textContent page]
              \<and> container (fst (renderPage P i w)) = container w)"
proof -
  from assms(1) obtain xml where x: "diagramXml w = Some xml"
    by (rule selected_pageD)
  note rp = renderPage_selected [OF assms(1) x]
  have e: "e = DecodeError"
    using assms(3) by (rule decompressDiagram_error)
  have res: "snd (renderPage P i w) =
      (if str_includes (diagram_textContent page) ''<mxGraphModel'' then
         (case doc_model (parseFromString P (diagram_textContent page)) of
            Some m \<Rightarrow> Inr ()
          | None \<Rightarrow> Inl UnparsableContent)
       else Inl UnparsableContent)"
    unfolding rp Let_def by (simp add: assms(2,3) renderContent_result)
  then have ne: "snd (renderPage P i w) \<noteq> Inl DecodeError"
    by (simp split: option.splits)
  have run: "snd (renderPage P i w) = Inl UnparsableContent
      \<and> codec_calls (fst (renderPage P i w)) = codec_calls w @ [diagram_textContent page]
      \<and> container (fst (renderPage P i w)) = container w"
    if "diagram_textContent page \<noteq> []
      \<and> \<not> str_includes (diagram_textContent page) ''<mxGraphModel''"
    using that unfolding rp Let_def
    by (simp add: assms(2,3) renderContent_result renderContent_frame renderContent_container
          codec_calls_simps log_call_frame)
  from e res ne run show ?thesis
    by blast
qed

lemma file_host_parse:
  "parseFromString file_host two_pages_xml =
     \<lparr>doc_parsererror = None, doc_diagrams = [inline_page, inline_page],
      doc_model = Some empty_model\<rparr>"
  "parseFromString file_host one_page_xml =
     \<lparr>doc_parsererror = None, doc_diagrams = [inline_page], doc_model = Some empty_model\<rparr>"
  "parseFromString file_host bare_xml =
     \<lparr>doc_parsererror = None, doc_diagrams = [], doc_model = Some empty_model\<rparr>"
  "parseFromString file_host packed_xml =
     \<lparr>doc_parsererror = None, doc_diagrams = [text_page ''not base64!''], doc_model = None\<rparr>"
  "parseFromString file_host escaped_xml =
     \<lparr>doc_parsererror = None, doc_diagrams = [text_page bare_xml], doc_model = None\<rparr>"
  "parseFromString file_host broken_xml =
     \<lparr>doc_parsererror = Some ''unclosed tag'', doc_diagrams = [], doc_model = None\<rparr>"
  by (simp_all add: file_host_def plain_host_def two_pages_xml_def one_page_xml_def
        bare_xml_def packed_xml_def escaped_xml_def broken_xml_def)

lemma xml_not_empty:
  "two_pages_xml \<noteq> []" "one_page_xml \<noteq> []" "bare_xml \<noteq> []" "packed_xml \<noteq> []"
  "escaped_xml \<noteq> []" "broken_xml \<noteq> []"
  by (simp_all add: two_pages_xml_def one_page_xml_def bare_xml_def packed_xml_def
        escaped_xml_def broken_xml_def)

theorem renderPage_decode_failure_witness:
  "snd (renderPage file_host 0 (showing packed_xml)) = Inl UnparsableContent
   \<and> codec_calls (fst (renderPage file_host 0 (showing packed_xml))) = [''not base64!'']
   \<and> container (fst (renderPage file_host 0 (showing packed_xml))) = Blank"
proof -
  have sel: "selected_page file_host (showing packed_xml) 0 = Some (text_page ''not base64!'')"
    by (simp add: selected_page_def showing_def file_host_parse xml_not_empty Let_def)
  have nomodel: "diagram_model (text_page ''not base64!'') = None"
    by (simp add: text_page_def)
  have fails: "decompressDiagram file_host (diagram_textContent (text_page ''not base64!'')) = Inl DecodeError"
    by (simp add: decompressDiagram_def file_host_def plain_host_def)
  have payload: "diagram_textContent (text_page ''not base64!'') = ''not base64!''"
    by (simp add: text_page_def)
  have w: "codec_calls (showing packed_xml) = []" "container (showing packed_xml) = Blank"
    by (simp_all add: showing_def new_widget_def codec_calls_def List.map_filter_simps)
  from renderPage_decode_failure [OF sel nomodel fails] show ?thesis
    by (simp add: payload w)
qed

lemma renderPage_frame:
  "currentPage (fst (renderPage P i w)) = currentPage w"
  "totalPages (fst (renderPage P i w)) = totalPages w"
  "toolbar (fst (renderPage P i w)) = toolbar w"
  "diagramXml (fst (renderPage P i w)) = diagramXml w"
  "errorDiv (fst (renderPage P i w)) = errorDiv w"
proof -
  have "currentPage (fst (renderPage P i w)) = currentPage w
      \<and> totalPages (fst (renderPage P i w)) = totalPages w
      \<and> toolbar (fst (renderPage P i w)) = toolbar w
      \<and> diagramXml (fst (renderPage P i w)) = diagramXml w
      \<and> errorDiv (fst (renderPage P i w)) = errorDiv w"
  proof (cases "selected_page P w i")
    case (Some page)
    then obtain xml where x: "diagramXml w = Some xml"
      by (rule selected_pageD)
    show ?thesis
      unfolding renderPage_selected [OF Some x] Let_def
      by (simp add: renderContent_frame renderMxGraphModel_frame log_call_frame
            split: option.splits sum.splits)
  next
    case None
    show ?thesis
    proof (cases "diagramXml w = None \<or> diagramXml w = Some []")
      case True
      then show ?thesis by (simp add: renderPage_no_document)
    next
      case False
      then obtain xml where x: "diagramXml w = Some xml" "xml \<noteq> []"
        by (cases "diagramXml w") auto
      show ?thesis
      proof (cases "doc_diagrams (parseFromString P xml) = []")
        case True
        then show ?thesis
          by (simp add: renderPage_no_pages [OF x] renderMxGraphModel_frame log_call_frame
                split: option.splits)
      next
        case False
        with None x have "i < 0 \<or> int (length (doc_diagrams (parseFromString P xml))) \<le> i"
          by (auto simp: selected_page_def Let_def split: if_splits)
        with False show ?thesis
          by (simp add: renderPage_not_found [OF x] log_call_frame)
      qed
    qed
  qed
  then show "currentPage (fst (renderPage P i w)) = currentPage w"
    "totalPages (fst (renderPage P i w)) = totalPages w"
    "toolbar (fst (renderPage P i w)) = toolbar w"
    "diagramXml (fst (renderPage P i w)) = diagramXml w"
    "errorDiv (fst (renderPage P i w)) = errorDiv w"
    by simp_all
qed

lemma updatePageDisplay_frame:
  "currentPage (updatePageDisplay P w) = currentPage w"
  "totalPages (updatePageDisplay P w) = totalPages w"
  by (simp_all add: updatePageDisplay_def renderPage_frame)

text \<open>
  Claim C10. Rendering a page hands a text to the codec exactly when a page is selected,
  it has no inline model, and its text is not empty and lacks \<open><mxGraphModel\<close>; the
  text handed over is then the text of the page. For a page with an inline model the
  codec is not called and that model is drawn. For a page without one whose text
  contains \<open><mxGraphModel\<close> the codec is not called and the text itself is parsed: its
  model is drawn, and the page fails with \<open>UnparsableContent\<close> if the parse has none.
\<close>

theorem renderPage_codec_gate:
  "codec_calls (fst (renderPage P i w)) =
     codec_calls w @
       (case selected_page P w i of
          None \<Rightarrow> []
        | Some page \<Rightarrow>
            if diagram_model page = None \<and> diagram_textContent page \<noteq> []
               \<and> \<not> str_includes (diagram_textContent page) ''<mxGraphModel''
            then [diagram_textContent page] else [])
   \<and> (\<forall>page m. selected_page P w i = Some page \<and> diagram_model page = Some m \<longrightarrow>
          codec_calls (fst (renderPage P i w)) = codec_calls w
          \<and> snd (renderPage P i w) = Inr ()
          \<and> container (fst (renderPage P i w)) = Drawn (mxGraphToSvg P m))
   \<and> (\<forall>page. selected_page P w i = Some page \<and> diagram_model page = None
          \<and> str_includes (diagram_textContent page) ''<mxGraphModel'' \<longrightarrow>
          codec_calls (fst (renderPage P i w)) = codec_calls w
          \<and> snd (renderPage P i w) =
              (case doc_model (parseFromString P (diagram_textContent page)) of
                 Some m \<Rightarrow> Inr ()
               | None \<Rightarrow> Inl UnparsableContent)
          \<and> container (fst (renderPage P i w)) =
              (case doc_model (parseFromString P (diagram_textContent page)) of
                 Some m \<Rightarrow> Drawn (mxGraphToSvg P m)
               | None \<Rightarrow> container w))"
proof (intro conjI allI impI)
  show "codec_calls (fst (renderPage P i w)) =
     codec_calls w @
       (case selected_page P w i of
          None \<Rightarrow> []
        | Some page \<Rightarrow>
            if diagram_model page = None \<and> diagram_textContent page \<noteq> []
               \<and> \<not> str_includes (diagram_textContent page) ''<mxGraphModel''
            then [diagram_textContent page] else [])"
    by (rule renderPage_codec_calls)
next
  fix page m
  assume a: "selected_page P w i = Some page \<and> diagram_model page = Some m"
  then obtain xml where x: "diagramXml w = Some xml"
    by (blast elim: selected_pageD)
  from a have rp: "renderPage P i w = (renderMxGraphModel P m (log_call (ParseXml xml) w), Inr ())"
    by (simp add: renderPage_selected [OF _ x] Let_def)
  show "codec_calls (fst (renderPage P i w)) = codec_calls w"
    by (simp add: rp codec_calls_simps)
  show "snd (renderPage P i w) = Inr ()"
    by (simp add: rp)
  show "container (fst (renderPage P i w)) = Drawn (mxGraphToSvg P m)"
    by (simp add: rp renderMxGraphModel_frame)
next
  fix page
  assume a: "selected_page P w i = Some page \<and> diagram_model page = None
      \<and> str_includes (diagram_textContent page) ''<mxGraphModel''"
  then obtain xml where x: "diagramXml w = Some xml"
    by (blast elim: selected_pageD)
  from a have rp: "renderPage P i w =
      renderContent P (diagram_textContent page) (log_call (ParseXml xml) w)"
    by (simp add: renderPage_selected [OF _ x] Let_def)
  show "codec_calls (fst (renderPage P i w)) = codec_calls w"
    by (simp add: rp renderContent_frame codec_calls_simps)
  show "snd (renderPage P i w) =
      (case doc_model (parseFromString P (diagram_textContent page)) of
         Some m \<Rightarrow> Inr ()
       | None \<Rightarrow> Inl UnparsableContent)"
    using a by (simp add: rp renderContent_result)
  show "container (fst (renderPage P i w)) =
      (case doc_model (parseFromString P (diagram_textContent page)) of
         Some m \<Rightarrow> Drawn (mxGraphToSvg P m)
       | None \<Rightarrow> container w)"
    using a by (simp add: rp renderContent_container log_call_frame split: option.splits)
qed

theorem renderPage_codec_gate_witness:
  "codec_calls (fst (renderPage file_host 1 (showing two_pages_xml))) = []
   \<and> snd (renderPage file_host 1 (showing two_pages_xml)) = Inr ()
   \<and> container (fst (renderPage file_host 1 (showing two_pages_xml)))
       = Drawn (mxGraphToSvg file_host empty_model)
   \<and> codec_calls (fst (renderPage file_host 0 (showing escaped_xml))) = []
   \<and> snd (renderPage file_host 0 (showing escaped_xml)) = Inr ()
   \<and> container (fst (renderPage file_host 0 (showing escaped_xml)))
       = Drawn (mxGraphToSvg file_host empty_model)"
proof -
  have sel1: "selected_page file_host (showing two_pages_xml) 1 = Some inline_page"
    by (simp add: selected_page_def showing_def file_host_parse xml_not_empty Let_def)
  have m1: "diagram_model inline_page = Some empty_model"
    by (simp add: inline_page_def)
  have sel2: "selected_page file_host (showing escaped_xml) 0 = Some (text_page bare_xml)"
    by (simp add: selected_page_def showing_def file_host_parse xml_not_empty Let_def)
  have m2: "diagram_model (text_page bare_xml) = None"
    "diagram_textContent (text_page bare_xml) = bare_xml"
    by (simp_all add: text_page_def)
  have inc: "str_includes bare_xml ''<mxGraphModel''"
    by (simp add: bare_xml_def)
  have w: "codec_calls (showing two_pages_xml) = []" "codec_calls (showing escaped_xml) = []"
    by (simp_all add: showing_def new_widget_def codec_calls_def List.map_filter_simps)
  note a = renderPage_codec_gate [of file_host 1 "showing two_pages_xml",
      THEN conjunct2, THEN conjunct1, rule_format, of inline_page empty_model]
  note b = renderPage_codec_gate [of file_host 0 "showing escaped_xml",
      THEN conjunct2, THEN conjunct2, rule_format, of "text_page bare_xml"]
  have "codec_calls (fst (renderPage file_host 1 (showing two_pages_xml)))
        = codec_calls (showing two_pages_xml)
      \<and> snd (renderPage file_host 1 (showing two_pages_xml)) = Inr ()
      \<and> container (fst (renderPage file_host 1 (showing two_pages_xml)))
          = Drawn (mxGraphToSvg file_host empty_model)"
    using a sel1 m1 by simp
  moreover have "codec_calls (fst (renderPage file_host 0 (showing escaped_xml)))
        = codec_calls (showing escaped_xml)
      \<and> snd (renderPage file_host 0 (showing escaped_xml)) =
          (case doc_model (parseFromString file_host bare_xml) of
             Some m \<Rightarrow> Inr ()
           | None \<Rightarrow> Inl UnparsableContent)
      \<and> container (fst (renderPage file_host 0 (showing escaped_xml))) =
          (case doc_model (parseFromString file_host bare_xml) of
             Some m \<Rightarrow> Drawn (mxGraphToSvg file_host m)
           | None \<Rightarrow> container (showing escaped_xml))"
    using b sel2 m2 inc by simp
  ultimately show ?thesis
    by (simp add: w file_host_parse)
qed

section \<open>Loading, reloading and navigation\<close>

lemma renderDiagram_frame:
  "currentPage (fst (renderDiagram P c w)) = currentPage w"
  by (simp add: renderDiagram_def Let_def renderPage_frame setupPageNavigation_def
        log_call_frame split: option.splits)

text \<open>No load changes the page index, whatever the document.\<close>

lemma loadDiagram_currentPage:
  "currentPage (fst (loadDiagram P content w)) = currentPage w"
  by (simp add: loadDiagram_def Let_def showError_def renderDiagram_frame split: sum.splits)

lemma renderDiagram_totalPages:
  assumes "doc_parsererror (parseFromString P c) = None"
  shows "totalPages (fst (renderDiagram P c w)) =
     (if doc_diagrams (parseFromString P c) = [] then 1
      else int (length (doc_diagrams (parseFromString P c))))"
  using assms
  by (simp add: renderDiagram_def Let_def renderPage_frame setupPageNavigation_def)

lemma loadDiagram_totalPages:
  assumes "trim content \<noteq> []" and "doc_parsererror (parseFromString P content) = None"
  shows "totalPages (fst (loadDiagram P content w)) =
     (if doc_diagrams (parseFromString P content) = [] then 1
      else int (length (doc_diagrams (parseFromString P content))))"
proof -
  from assms(1) have "content \<noteq> []"
    by (auto simp: trim_def)
  with assms show ?thesis
    by (simp add: loadDiagram_def Let_def showError_def renderDiagram_totalPages
          split: sum.splits)
qed

text \<open>
  Claim C8. Loading an empty or white-space-only text fails with \<open>EmptyDocument\<close>, which
  the error pane shows, and the markup parser is not called: the log of calls is
  unchanged. Loading a text whose parse has a \<open>parsererror\<close> element fails with
  \<open>InvalidDocument\<close> carrying the text of that element, after the one call to the
  parser.
\<close>

theorem loadDiagram_blank_or_invalid:
  "(content = [] \<or> trim content = [] \<longrightarrow>
      snd (loadDiagram P content w) = Inl EmptyDocument
      \<and> errorDiv (fst (loadDiagram P content w)) = Some EmptyDocument
      \<and> calls (fst (loadDiagram P content w)) = calls w)
   \<and> (trim content \<noteq> [] \<and> doc_parsererror (parseFromString P content) = Some message \<longrightarrow>
        snd (loadDiagram P content w) = Inl (InvalidDocument message)
        \<and> errorDiv (fst (loadDiagram P content w)) = Some (InvalidDocument message)
        \<and> calls (fst (loadDiagram P content w)) = calls w @ [ParseXml content])"
proof (intro conjI impI)
  assume blank: "content = [] \<or> trim content = []"
  then have "loadDiagram P content w =
      (showError EmptyDocument (w\<lparr>container := LoadingBanner\<rparr>), Inl EmptyDocument)"
    by (auto simp: loadDiagram_def Let_def)
  then show "snd (loadDiagram P content w) = Inl EmptyDocument"
    and "errorDiv (fst (loadDiagram P content w)) = Some EmptyDocument"
    and "calls (fst (loadDiagram P content w)) = calls w"
    by (simp_all add: showError_def)
next
  assume bad: "trim content \<noteq> [] \<and> doc_parsererror (parseFromString P content) = Some message"
  then have ne: "content \<noteq> []"
    by (auto simp: trim_def)
  from bad have rd: "renderDiagram P content (w\<lparr>container := LoadingBanner\<rparr>) =
      (log_call (ParseXml content) (w\<lparr>container := LoadingBanner\<rparr>),
       Inl (InvalidDocument message))"
    by (simp add: renderDiagram_def Let_def)
  from bad ne have "loadDiagram P content w =
      (showError (InvalidDocument message)
         (log_call (ParseXml content) (w\<lparr>container := LoadingBanner\<rparr>)),
       Inl (InvalidDocument message))"
    by (simp add: loadDiagram_def Let_def rd)
  then show "snd (loadDiagram P content w) = Inl (InvalidDocument message)"
    and "errorDiv (fst (loadDiagram P content w)) = Some (InvalidDocument message)"
    and "calls (fst (loadDiagram P content w)) = calls w @ [ParseXml content]"
    by (simp_all add: showError_def log_call_def)
qed

theorem loadDiagram_blank_or_invalid_witness:
  "snd (loadDiagram file_host ''  '' new_widget) = Inl EmptyDocument
   \<and> calls (fst (loadDiagram file_host ''  '' new_widget)) = []
   \<and> snd (loadDiagram file_host broken_xml new_widget) = Inl (InvalidDocument ''unclosed tag'')
   \<and> errorDiv (fst (loadDiagram file_host broken_xml new_widget))
       = Some (InvalidDocument ''unclosed tag'')"
proof -
  have blank: "''  '' = [] \<or> trim ''  '' = []"
    by (simp add: trim_def is_space_def)
  have bad: "trim broken_xml \<noteq> []
      \<and> doc_parsererror (parseFromString file_host broken_xml) = Some ''unclosed tag''"
    by (simp add: file_host_parse) (simp add: broken_xml_def trim_def is_space_def)
  have "calls new_widget = []"
    by (simp add: new_widget_def)
  with loadDiagram_blank_or_invalid [of "''  ''" file_host new_widget "''unclosed tag''"]
    loadDiagram_blank_or_invalid [of broken_xml file_host new_widget "''unclosed tag''"]
    blank bad
  show ?thesis
    by simp
qed

lemma trim_xml:
  "trim two_pages_xml \<noteq> []" "trim one_page_xml \<noteq> []" "trim bare_xml \<noteq> []"
  by (simp_all add: trim_def is_space_def two_pages_xml_def one_page_xml_def bare_xml_def)

lemma after_two_pages:
  "currentPage (step file_host new_widget (ContentChanged two_pages_xml)) = 0"
  "totalPages (step file_host new_widget (ContentChanged two_pages_xml)) = 2"
  "toolbar (step file_host new_widget (ContentChanged two_pages_xml)) = Some (1, 2)"
  "diagramXml (step file_host new_widget (ContentChanged two_pages_xml)) = Some two_pages_xml"
  by (simp_all add: step_def loadDiagram_def renderDiagram_def Let_def trim_xml xml_not_empty
        file_host_parse setupPageNavigation_def renderPage_frame log_call_frame showError_def
        new_widget_def split: sum.splits)

lemma loadDiagram_error_shown:
  "snd (loadDiagram P content w) = Inl e \<Longrightarrow> errorDiv (fst (loadDiagram P content w)) = Some e"
  by (auto simp: loadDiagram_def Let_def showError_def split: sum.splits)

lemma renderDiagram_result:
  assumes "doc_parsererror (parseFromString P c) = None"
    and "doc_diagrams (parseFromString P c) \<noteq> []"
    and "currentPage w < 0 \<or> int (length (doc_diagrams (parseFromString P c))) \<le> currentPage w"
    and "c \<noteq> []"
  shows "snd (renderDiagram P c w) = Inl (PageNotFound (currentPage w + 1))"
proof -
  define w2 where "w2 = (log_call (ParseXml c) w)\<lparr>diagramXml := Some c,
      totalPages := int (length (doc_diagrams (parseFromString P c)))\<rparr>"
  define w3 where "w3 = (if totalPages w2 > 1 then setupPageNavigation w2 else w2)"
  have rd: "renderDiagram P c w = renderPage P (currentPage w3) w3"
    using assms(1,2) by (simp add: renderDiagram_def Let_def w2_def w3_def)
  have x: "diagramXml w3 = Some c" and cp: "currentPage w3 = currentPage w"
    by (simp_all add: w3_def w2_def setupPageNavigation_def log_call_def)
  from assms(3) have "currentPage w3 < 0
      \<or> int (length (doc_diagrams (parseFromString P c))) \<le> currentPage w3"
    by (simp add: cp)
  from renderPage_not_found [OF x assms(4) assms(2) this] show ?thesis
    by (simp add: rd cp)
qed

lemma step_load: "step P w (ContentChanged c) = fst (loadDiagram P c w)"
  by (simp add: step_def)

lemma after_next:
  "currentPage (step file_host (step file_host new_widget (ContentChanged two_pages_xml)) ClickNext) = 1"
  "toolbar (step file_host (step file_host new_widget (ContentChanged two_pages_xml)) ClickNext)
     = Some (2, 2)"
  by (simp_all add: step_def [of _ _ ClickNext] after_two_pages nextPage_def
        updatePageDisplay_def renderPage_frame)

text \<open>
  Claim C9 at the failing input. A document of two pages is loaded and the next page is
  selected; the document then changes to one of a single page. The reload sets the page
  count to 1 and leaves the page index at 1, outside \<open>[0, totalPages - 1]\<close>, and the
  load fails with \<open>Page 2 not found\<close>. When the document changes to a bare model
  instead, the load succeeds with the same page index 1 and page count 1.
\<close>

theorem reload_keeps_page_index:
  "currentPage page_lost = 1 \<and> totalPages page_lost = 1
   \<and> errorDiv page_lost = Some (PageNotFound 2)
   \<and> currentPage page_stale = 1 \<and> totalPages page_stale = 1
   \<and> errorDiv page_stale = None"
proof -
  let ?w2 = "step file_host (step file_host new_widget (ContentChanged two_pages_xml)) ClickNext"
  have lost: "page_lost = fst (loadDiagram file_host one_page_xml ?w2)"
    by (simp add: page_lost_def step_load)
  have stale: "page_stale = fst (loadDiagram file_host bare_xml ?w2)"
    by (simp add: page_stale_def step_load)
  have c1: "currentPage page_lost = 1" and c2: "currentPage page_stale = 1"
    by (simp_all add: lost stale loadDiagram_currentPage after_next)
  have t1: "totalPages page_lost = 1"
    unfolding lost by (simp add: loadDiagram_totalPages trim_xml file_host_parse)
  have t2: "totalPages page_stale = 1"
    unfolding stale by (simp add: loadDiagram_totalPages trim_xml file_host_parse)
  have "snd (renderDiagram file_host one_page_xml (?w2\<lparr>container := LoadingBanner\<rparr>))
      = Inl (PageNotFound (currentPage (?w2\<lparr>container := LoadingBanner\<rparr>) + 1))"
    by (rule renderDiagram_result) (simp_all add: file_host_parse after_next xml_not_empty)
  then have "snd (loadDiagram file_host one_page_xml ?w2) = Inl (PageNotFound 2)"
    by (simp add: loadDiagram_def Let_def trim_xml xml_not_empty after_next)
  then have e1: "errorDiv page_lost = Some (PageNotFound 2)"
    unfolding lost by (rule loadDiagram_error_shown)
  have "errorDiv ?w2 = None"
    by (simp add: step_def loadDiagram_def renderDiagram_def Let_def trim_xml xml_not_empty
          file_host_parse setupPageNavigation_def renderPage_frame log_call_frame showError_def
          new_widget_def nextPage_def updatePageDisplay_def renderPage_selected
          selected_page_def inline_page_def renderMxGraphModel_frame split: sum.splits)
  moreover have "snd (renderDiagram file_host bare_xml (?w2\<lparr>container := LoadingBanner\<rparr>)) = Inr ()"
    by (simp add: renderDiagram_def Let_def file_host_parse renderPage_no_pages xml_not_empty
          setupPageNavigation_def log_call_def)
  ultimately have e2: "errorDiv page_stale = None"
    unfolding stale
    by (simp add: loadDiagram_def Let_def trim_xml xml_not_empty renderDiagram_def
          file_host_parse renderPage_frame log_call_frame)
  from c1 c2 t1 t2 e1 e2 show ?thesis
    by simp
qed

text \<open>
  The two navigation handlers keep a page index that is in range in range: at the last
  page the next-page request changes nothing, at the first page the previous-page
  request changes nothing, and otherwise the index moves by one; the page count is
  never changed.
\<close>

theorem navigation_preserves_range:
  assumes "0 \<le> currentPage w" and "currentPage w < totalPages w"
  shows "0 \<le> currentPage (nextPage P w) \<and> currentPage (nextPage P w) < totalPages (nextPage P w)
       \<and> 0 \<le> currentPage (prevPage P w) \<and> currentPage (prevPage P w) < totalPages (prevPage P w)
       \<and> totalPages (nextPage P w) = totalPages w \<and> totalPages (prevPage P w) = totalPages w
       \<and> (currentPage w = totalPages w - 1 \<longrightarrow> nextPage P w = w)
       \<and> (currentPage w = 0 \<longrightarrow> prevPage P w = w)
       \<and> (currentPage w < totalPages w - 1 \<longrightarrow> currentPage (nextPage P w) = currentPage w + 1)
       \<and> (0 < currentPage w \<longrightarrow> currentPage (prevPage P w) = currentPage w - 1)"
  using assms by (simp add: nextPage_def prevPage_def updatePageDisplay_frame)

theorem navigation_preserves_range_witness:
  "currentPage (nextPage file_host (showing two_pages_xml\<lparr>totalPages := 2\<rparr>)) = 1
   \<and> prevPage file_host (showing two_pages_xml\<lparr>totalPages := 2\<rparr>)
       = showing two_pages_xml\<lparr>totalPages := 2\<rparr>"
proof -
  have "0 \<le> currentPage (showing two_pages_xml\<lparr>totalPages := 2\<rparr>)"
    and "currentPage (showing two_pages_xml\<lparr>totalPages := 2\<rparr>)
      < totalPages (showing two_pages_xml\<lparr>totalPages := 2\<rparr>)"
    by (simp_all add: showing_def new_widget_def)
  from navigation_preserves_range [OF this, of file_host] show ?thesis
    by (simp add: showing_def new_widget_def)
qed

section \<open>Properties of the decompression glue\<close>

lemma join_chunks_fold:
  assumes "length result = length done + sum_list (map length chunks)" and "take (length done) result = done"
  shows "fst (foldl (\<lambda>(result, offset) chunk.
                       (typed_set result chunk offset, offset + length chunk))
                (result, length done) chunks) = done @ concat chunks"
  using assms
proof (induction chunks arbitrary: result "done")
  case Nil
  then show ?case by simp
next
  case (Cons c cs)
  let ?r = "typed_set result c (length done)"
  have len: "length ?r = length (done @ c) + sum_list (map length cs)"
    using Cons.prems by (simp add: typed_set_def)
  have tk: "take (length (done @ c)) ?r = done @ c"
    using Cons.prems by (simp add: typed_set_def)
  from Cons.IH [OF len tk] show ?case
    by simp
qed

text \<open>
  The copy loop of the decoder joins the chunks in the order in which they were read.
\<close>

theorem join_chunks_concat: "join_chunks chunks = concat chunks"
proof -
  have total: "foldl (\<lambda>acc chunk. acc + length chunk) n chunks = n + sum_list (map length chunks)"
    for n
    by (induction chunks arbitrary: n) simp_all
  have "fst (foldl (\<lambda>(result, offset) chunk.
                       (typed_set result chunk offset, offset + length chunk))
                (replicate (sum_list (map length chunks)) 0, length ([] :: byte list)) chunks)
      = [] @ concat chunks"
    by (rule join_chunks_fold) simp_all
  then show ?thesis
    by (simp add: join_chunks_def Let_def total)
qed

lemma read_all_append: "read_all chunks stream = chunks @ stream"
  by (induction stream arbitrary: chunks) simp_all

end
